theory Spec2Isabelle
  imports Main
begin

section \<open>The column filter \<open>cl\<close> (main.go)\<close>

text \<open>
  The program reads lines from standard input, splits each line into fields and prints the
  fields whose 1-based position was requested on the command line. The whole program is the
  function \<open>run\<close> of main.go; this theory embeds it together with the parts of the Go
  standard library it calls (\<open>flag.Parse\<close>, \<open>strconv.ParseInt\<close>, \<open>strings.Fields\<close>,
  \<open>regexp.Split\<close>, \<open>bufio.Scanner\<close> with its default line splitter). The library
  functions are not part of the repository; they are written down here from the library's
  own code and documentation, each under the name it has in Go. The matching of regular
  expressions alone is left open, as a parameter. Go strings are byte strings, so text is
  \<open>string\<close> (a list of 8-bit characters) throughout, and numbers are \<open>int\<close> with the
  64-bit bounds written out where the library checks them.
\<close>

subsection \<open>Bytes\<close>

definition tab :: char where
  "tab = CHR 0x09"

definition newline :: char where
  "newline = CHR 0x0A"

definition carriage_return :: char where
  "carriage_return = CHR 0x0D"

definition byte :: "char \<Rightarrow> int" where
  "byte c = of_char c"

subsection \<open>\<open>strconv.ParseInt(arg, 10, 64)\<close>\<close>

text \<open>
  \<open>strconv.ParseInt\<close> fails with one of two causes: the text is not a number
  (\<open>ErrSyntax\<close>) or the number does not fit the 64-bit range (\<open>ErrRange\<close>).
\<close>

datatype num_error = ErrSyntax | ErrRange

definition maxUint64 :: int where
  "maxUint64 = 2 ^ 64 - 1"

definition is_digit :: "char \<Rightarrow> bool" where
  "is_digit c \<longleftrightarrow> 48 \<le> byte c \<and> byte c \<le> 57"

definition digit_value :: "char \<Rightarrow> int" where
  "digit_value c = byte c - 48"

text \<open>
  The digit loop of \<open>ParseUint\<close> in base 10: a byte that is not a decimal digit is a syntax
  error; \<open>n \<ge> cutoff\<close> (with \<open>cutoff = maxUint64 / 10 + 1\<close>) means that \<open>n * 10\<close> overflows, and
  \<open>n * 10 + d > maxUint64\<close> that the addition does; both are range errors, reported as soon as
  they are met.
\<close>

fun ParseUint_digits :: "string \<Rightarrow> int \<Rightarrow> num_error + int" where
  "ParseUint_digits [] n = Inr n"
| "ParseUint_digits (c # cs) n =
     (if \<not> is_digit c then Inl ErrSyntax
      else if n \<ge> maxUint64 div 10 + 1 then Inl ErrRange
      else if n * 10 + digit_value c > maxUint64 then Inl ErrRange
      else ParseUint_digits cs (n * 10 + digit_value c))"

definition ParseUint :: "string \<Rightarrow> num_error + int" where
  "ParseUint s = (if s = [] then Inl ErrSyntax else ParseUint_digits s 0)"

text \<open>
  \<open>ParseInt\<close> picks off one leading sign, converts the rest as an unsigned number and checks
  the signed range: without a sign the magnitude must be below \<open>2^63\<close>, with a minus sign at
  most \<open>2^63\<close>.
\<close>

definition ParseInt :: "string \<Rightarrow> num_error + int" where
  "ParseInt s =
     (if s = [] then Inl ErrSyntax
      else
        let neg = (hd s = CHR ''-'');
            s1 = (if hd s = CHR ''+'' \<or> hd s = CHR ''-'' then tl s else s)
        in case ParseUint s1 of
             Inl e \<Rightarrow> Inl e
           | Inr un \<Rightarrow>
               if \<not> neg \<and> un \<ge> 2 ^ 63 then Inl ErrRange
               else if neg \<and> un > 2 ^ 63 then Inl ErrRange
               else Inr (if neg then - un else un))"

subsection \<open>Command-line flags (package \<open>flag\<close>)\<close>

text \<open>
  The three flags registered in \<open>init\<close>, with their defaults: \<open>-s\<close> (string, empty),
  \<open>-t\<close> (bool, false), \<open>-i\<close> (bool, false).
\<close>

record flags =
  separator :: string
  useTabSeparator :: bool
  ignoreHeaderRow :: bool

definition default_flags :: flags where
  "default_flags = \<lparr>separator = [], useTabSeparator = False, ignoreHeaderRow = False\<rparr>"

datatype flag_error =
    BadFlagSyntax string
  | FlagNotDefined string
  | InvalidBooleanValue string string
  | FlagNeedsArgument string
  | ErrHelp

text \<open>\<open>strconv.ParseBool\<close>, which reads the value of \<open>-t=value\<close> and \<open>-i=value\<close>.\<close>

definition ParseBool :: "string \<Rightarrow> bool option" where
  "ParseBool v =
     (if v \<in> set [''1'', ''t'', ''T'', ''TRUE'', ''true'', ''True''] then Some True
      else if v \<in> set [''0'', ''f'', ''F'', ''FALSE'', ''false'', ''False''] then Some False
      else None)"

text \<open>
  A flag may carry its value after an equals sign, which cannot be the first character of
  the name: \<open>-s=,\<close> has the name \<open>s\<close> and the value \<open>,\<close>.
\<close>

definition split_value :: "string \<Rightarrow> string \<times> string option" where
  "split_value name =
     (let after = dropWhile (\<lambda>c. c \<noteq> CHR ''='') (tl name)
      in if after = [] then (name, None)
         else (hd name # takeWhile (\<lambda>c. c \<noteq> CHR ''='') (tl name), Some (tl after)))"

definition set_bool_flag :: "string \<Rightarrow> bool \<Rightarrow> flags \<Rightarrow> flags" where
  "set_bool_flag name b fl =
     (if name = ''t'' then fl\<lparr>useTabSeparator := b\<rparr> else fl\<lparr>ignoreHeaderRow := b\<rparr>)"

text \<open>
  \<open>flag.Parse\<close>: the loop over \<open>parseOne\<close>. An argument that is shorter than two bytes or
  does not start with a minus sign is not a flag: parsing stops there, and this argument and
  everything after it are the positional arguments \<open>flag.Args()\<close>. The argument \<open>--\<close> ends
  the flags and is dropped. A bool flag takes no value from the next argument; the string
  flag \<open>-s\<close> does.
\<close>

fun Parse :: "flags \<Rightarrow> string list \<Rightarrow> flag_error + flags \<times> string list" where
  "Parse fl [] = Inr (fl, [])"
| "Parse fl (s # rest) =
     (if length s < 2 \<or> hd s \<noteq> CHR ''-'' then Inr (fl, s # rest)
      else if s = ''--'' then Inr (fl, rest)
      else
        let name0 = (if s ! 1 = CHR ''-'' then drop 2 s else drop 1 s)
        in if name0 = [] \<or> hd name0 = CHR ''-'' \<or> hd name0 = CHR ''='' then Inl (BadFlagSyntax s)
           else
             (case split_value name0 of
                (name, val) \<Rightarrow>
                  if name = ''s'' then
                    (case val of
                       Some v \<Rightarrow> Parse (fl\<lparr>separator := v\<rparr>) rest
                     | None \<Rightarrow>
                         (case rest of
                            [] \<Rightarrow> Inl (FlagNeedsArgument name)
                          | v # rest' \<Rightarrow> Parse (fl\<lparr>separator := v\<rparr>) rest'))
                  else if name = ''t'' \<or> name = ''i'' then
                    (case val of
                       None \<Rightarrow> Parse (set_bool_flag name True fl) rest
                     | Some v \<Rightarrow>
                         (case ParseBool v of
                            None \<Rightarrow> Inl (InvalidBooleanValue v name)
                          | Some b \<Rightarrow> Parse (set_bool_flag name b fl) rest))
                  else if name = ''help'' \<or> name = ''h'' then Inl ErrHelp
                  else Inl (FlagNotDefined name)))"

subsection \<open>Runes: \<open>utf8.DecodeRuneInString\<close> and \<open>unicode.IsSpace\<close>\<close>

text \<open>
  \<open>strings.Fields\<close> looks at the runes of the line. A rune is decoded from one to four
  bytes; a byte sequence that is not valid UTF-8 decodes to \<open>RuneError\<close> of width 1.
  \<open>first_byte\<close> is the decoder's table for a leading byte of a multi-byte rune: the size of
  the encoding and the range accepted for the second byte.
\<close>

definition RuneError :: int where
  "RuneError = 0xFFFD"

definition first_byte :: "int \<Rightarrow> (nat \<times> int \<times> int) option" where
  "first_byte b =
     (if 0xC2 \<le> b \<and> b \<le> 0xDF then Some (2, 0x80, 0xBF)
      else if b = 0xE0 then Some (3, 0xA0, 0xBF)
      else if (0xE1 \<le> b \<and> b \<le> 0xEC) \<or> b = 0xEE \<or> b = 0xEF then Some (3, 0x80, 0xBF)
      else if b = 0xED then Some (3, 0x80, 0x9F)
      else if b = 0xF0 then Some (4, 0x90, 0xBF)
      else if 0xF1 \<le> b \<and> b \<le> 0xF3 then Some (4, 0x80, 0xBF)
      else if b = 0xF4 then Some (4, 0x80, 0x8F)
      else None)"

definition DecodeRuneInString :: "string \<Rightarrow> int \<times> nat" where
  "DecodeRuneInString s =
     (if s = [] then (RuneError, 0)
      else
        let s0 = byte (s ! 0)
        in if s0 < 0x80 then (s0, 1)
           else
             (case first_byte s0 of
                None \<Rightarrow> (RuneError, 1)
              | Some (sz, lo, hi) \<Rightarrow>
                  if length s < sz then (RuneError, 1)
                  else
                    let s1 = byte (s ! 1)
                    in if s1 < lo \<or> hi < s1 then (RuneError, 1)
                       else if sz \<le> 2 then ((s0 mod 32) * 64 + s1 mod 64, 2)
                       else
                         let s2 = byte (s ! 2)
                         in if s2 < 0x80 \<or> 0xBF < s2 then (RuneError, 1)
                            else if sz \<le> 3 then
                              ((s0 mod 16) * 4096 + (s1 mod 64) * 64 + s2 mod 64, 3)
                            else
                              let s3 = byte (s ! 3)
                              in if s3 < 0x80 \<or> 0xBF < s3 then (RuneError, 1)
                                 else ((s0 mod 8) * 262144 + (s1 mod 64) * 4096
                                       + (s2 mod 64) * 64 + s3 mod 64, 4)))"

text \<open>The white space of Unicode, as \<open>unicode.IsSpace\<close> lists it.\<close>

definition IsSpace :: "int \<Rightarrow> bool" where
  "IsSpace r \<longleftrightarrow>
     (0x09 \<le> r \<and> r \<le> 0x0D) \<or> r = 0x20 \<or> r = 0x85 \<or> r = 0xA0 \<or> r = 0x1680
     \<or> (0x2000 \<le> r \<and> r \<le> 0x200A) \<or> r = 0x2028 \<or> r = 0x2029 \<or> r = 0x202F
     \<or> r = 0x205F \<or> r = 0x3000"

definition rune_at :: "string \<Rightarrow> int" where
  "rune_at s = fst (DecodeRuneInString s)"

definition rune_width :: "string \<Rightarrow> nat" where
  "rune_width s = snd (DecodeRuneInString s)"

lemma rune_width_pos: "s \<noteq> [] \<Longrightarrow> 0 < rune_width s"
  by (auto simp: rune_width_def DecodeRuneInString_def Let_def split: option.splits)

lemma first_byte_size: "first_byte b = Some (sz, lo, hi) \<Longrightarrow> 2 \<le> sz"
  by (auto simp: first_byte_def split: if_splits)

lemma rune_width_le: "rune_width s \<le> length s"
proof (cases "s = []")
  case True
  then show ?thesis by (simp add: rune_width_def DecodeRuneInString_def)
next
  case False
  then have pos: "1 \<le> length s" by (cases s) auto
  show ?thesis
  proof (cases "first_byte (byte (s ! 0))")
    case None
    with False pos show ?thesis
      by (simp add: rune_width_def DecodeRuneInString_def Let_def)
  next
    case (Some t)
    obtain sz lo hi where t: "t = (sz, lo, hi)" by (cases t) auto
    from Some t have "2 \<le> sz" using first_byte_size by blast
    with False pos Some t show ?thesis
      by (auto simp: rune_width_def DecodeRuneInString_def Let_def)
  qed
qed

subsection \<open>\<open>strings.Fields\<close>\<close>

text \<open>
  \<open>strings.Fields\<close> splits around each run of white space as \<open>unicode.IsSpace\<close> defines
  it: it walks over the runes of the line (its shortcut for a line of ASCII bytes gives the
  same fields). \<open>cur\<close> holds the bytes of the field that has begun and not yet ended (it
  is empty when no field is open, where Go keeps a negative start index); a white-space
  rune closes the open field, any other rune extends it, and the end of the line closes it
  too.
\<close>

definition close_field :: "string \<Rightarrow> string list" where
  "close_field cur = (if cur = [] then [] else [cur])"

function Fields_from :: "string \<Rightarrow> string \<Rightarrow> string list" where
  "Fields_from cur s =
     (if s = [] then close_field cur
      else if IsSpace (rune_at s) then close_field cur @ Fields_from [] (drop (rune_width s) s)
      else Fields_from (cur @ take (rune_width s) s) (drop (rune_width s) s))"
  by pat_completeness auto
termination
  by (relation "measure (\<lambda>(cur, s). length s)") (auto simp: rune_width_pos)

declare Fields_from.simps [simp del]

definition Fields :: "string \<Rightarrow> string list" where
  "Fields s = Fields_from [] s"

subsection \<open>Regular expressions (package \<open>regexp\<close>)\<close>

text \<open>
  The regular-expression matcher is a parameter of the development: \<open>Compile\<close> turns a
  pattern into a program or fails, and \<open>FindAllStringIndex\<close> gives the successive
  non-overlapping matches of a program in a text as pairs \<open>(start, end)\<close> of byte offsets.
  A compiled expression keeps the text of its pattern beside the program.
\<close>

record 're regexp_engine =
  Compile :: "string \<Rightarrow> 're option"
  FindAllStringIndex :: "'re \<Rightarrow> string \<Rightarrow> (nat \<times> nat) list"

type_synonym 're Regexp = "string \<times> 're"

definition slice :: "string \<Rightarrow> nat \<Rightarrow> nat \<Rightarrow> string" where
  "slice s beg en = take (en - beg) (drop beg s)"

text \<open>
  \<open>Regexp.Split(s, -1)\<close>: the text between the matches. The loop keeps \<open>beg\<close>, the end of
  the last match, and \<open>end\<close>, its start; a match that ends at offset 0 adds no piece before
  it, and the rest of the text after the last match is added unless that match starts at the
  end of the text. An empty text gives one empty field when the pattern is not empty.
  \<open>slice s beg end\<close> is Go's \<open>s[beg:end]\<close>; the matches of a regular expression come in
  order and lie within the text, so the bounds are always in range.
\<close>

definition Split_step :: "string \<Rightarrow> nat \<times> nat \<Rightarrow> nat \<times> nat \<times> string list \<Rightarrow> nat \<times> nat \<times> string list" where
  "Split_step s m st =
     (case st of (beg, en, strings) \<Rightarrow>
        (snd m, fst m, if snd m \<noteq> 0 then strings @ [slice s beg (fst m)] else strings))"

definition Split :: "'re regexp_engine \<Rightarrow> 're Regexp \<Rightarrow> string \<Rightarrow> string list" where
  "Split lib re s =
     (if fst re \<noteq> [] \<and> s = [] then [[]]
      else
        (case fold (Split_step s) (FindAllStringIndex lib (snd re) s) (0, 0, []) of
           (beg, en, strings) \<Rightarrow>
             if en \<noteq> length s then strings @ [drop beg s] else strings))"

subsection \<open>Reading lines (\<open>bufio.Scanner\<close>)\<close>

text \<open>
  Standard input is the bytes it delivers and whether reading them ends in an error instead
  of a clean end of file.
\<close>

record reader =
  data :: string
  read_fails :: bool

datatype scan_error = ErrTooLong | ReadError

definition MaxScanTokenSize :: int where
  "MaxScanTokenSize = 64 * 1024"

definition dropCR :: "string \<Rightarrow> string" where
  "dropCR line = (if line \<noteq> [] \<and> last line = carriage_return then butlast line else line)"

text \<open>
  The scanner with its default splitter \<open>ScanLines\<close>: a line ends at a newline, one
  trailing carriage return is dropped, and what is left after the last newline is a last
  line when it is not empty. The buffer holds \<open>MaxScanTokenSize\<close> bytes: a line that
  does not end within them stops the scan with \<open>ErrTooLong\<close>. \<open>cur\<close> is the part of the
  current line read so far. The result is the lines that \<open>Scan\<close> yields and the error, if
  any, that ends the scan.
\<close>

fun ScanLines :: "string \<Rightarrow> string \<Rightarrow> string list \<times> scan_error option" where
  "ScanLines cur [] =
     (if cur = [] then ([], None)
      else if int (length cur) \<ge> MaxScanTokenSize then ([], Some ErrTooLong)
      else ([dropCR cur], None))"
| "ScanLines cur (c # cs) =
     (if c = newline then
        (if int (length cur) \<ge> MaxScanTokenSize then ([], Some ErrTooLong)
         else (dropCR cur # fst (ScanLines [] cs), snd (ScanLines [] cs)))
      else ScanLines (cur @ [c]) cs)"

definition Scanner :: "reader \<Rightarrow> string list \<times> scan_error option" where
  "Scanner r =
     (case ScanLines [] (data r) of
        (lines, Some e) \<Rightarrow> (lines, Some e)
      | (lines, None) \<Rightarrow> (lines, if read_fails r then Some ReadError else None))"

subsection \<open>What a run leaves behind\<close>

text \<open>
  The messages of the error stream are kept as values, one per call that writes there,
  with the operands of the format and not their rendering:
  \<^item> \<open>FailedToParseArgument arg err\<close> is \<^verbatim>\<open>"ERROR: failed to parse argument %q: %v\n"\<close>;
  \<^item> \<open>InvalidColumnIndex c\<close> is
    \<^verbatim>\<open>"ERROR: argument %q is invalid, column indexes must be positive numbers\n"\<close>,
    formatted with the parsed number \<open>c\<close>;
  \<^item> \<open>BothSeparators\<close> is \<^verbatim>\<open>"ERROR: you cannot use both -s and -t"\<close>;
  \<^item> \<open>CouldNotParseSeparator sep\<close> is
    \<^verbatim>\<open>"ERROR: could not parse separator %q as a regular expression: %v\n"\<close>;
  \<^item> \<open>FailedToReadInput err\<close> is \<^verbatim>\<open>"ERROR: failed to read input: %v\n"\<close>;
  \<^item> \<open>FlagParseError err\<close> is the message of package \<open>flag\<close> for a command line it rejects;
  \<^item> \<open>FlagDefaults\<close> is the list of options that \<open>flag.PrintDefaults\<close> writes, which goes
    to the output of package \<open>flag\<close>, the error stream.
\<close>

datatype message =
    FailedToParseArgument string num_error
  | InvalidColumnIndex int
  | BothSeparators
  | CouldNotParseSeparator string
  | FailedToReadInput scan_error
  | FlagParseError flag_error
  | FlagDefaults

text \<open>
  The outcome of a run: the bytes on standard output (the writes to \<open>stdout\<close> and the
  usage text, which \<open>fmt.Printf\<close> sends there), the messages on the error stream, the exit
  status of the process (the value \<open>run\<close> returns to \<open>exitFunc\<close>, or the argument of
  \<open>os.Exit\<close>), and the number of calls of \<open>scanner.Scan\<close>, which is 0 when the run ends
  before it reads any input.
\<close>

record outcome =
  stdout :: string
  stderr :: "message list"
  exit_status :: int
  scans :: nat

text \<open>The text that \<open>flag.Usage\<close> prints with \<open>fmt.Printf\<close>; it holds no percent sign.\<close>

definition usage_lines :: "string list" where
  \<open>usage_lines =
     [''Usage: cl [options...] <column_indexes...>'',
      [],
      ''cl is a tool for filtering data by columns on the command line.'',
      [],
      ''Examples:'',
      [],
      tab # ''Filter a simple table of data for the second column:'',
      tab # ''$ echo "1 2 3'',
      tab # ''> 4 5 6'',
      tab # ''> 7 8 9" | cl 2'',
      tab # ''2'',
      tab # ''5'',
      tab # ''8'',
      [],
      tab # ''Grab a list of process IDs from ps, ignoring the header row (-i):'',
      tab # ''$ ps | cl 1 -i'',
      tab # ''7958'',
      tab # ''29855'',
      [],
      tab # ''Grab the third column of output when there may be spaces, in values, and tabs are the separator (-t):'',
      tab # ''$ netstat | cl 3 -t'',
      [],
      tab # ''Or the first 2 columns:'',
      tab # ''$ netstat | cl 1 2 -t'',
      [],
      tab # ''Or the first 4 columns (in bash):'',
      tab # ''$ netstat | cl {1..4} -t'',
      [],
      ''Options:'']\<close>

definition usage_text :: string where
  "usage_text = concat (map (\<lambda>l. l @ [newline]) usage_lines)"

text \<open>
  \<open>flag.Usage()\<close> followed by the end of the process: the usage text on standard output,
  the option list on the error stream after the messages already written there, no input
  read.
\<close>

definition usage_exit :: "message list \<Rightarrow> int \<Rightarrow> outcome" where
  "usage_exit msgs code =
     \<lparr>stdout = usage_text, stderr = msgs @ [FlagDefaults], exit_status = code, scans = 0\<rparr>"

text \<open>A validation error: one message on the error stream and \<open>return 1\<close>.\<close>

definition fail :: "message \<Rightarrow> outcome" where
  "fail msg = \<lparr>stdout = [], stderr = [msg], exit_status = 1, scans = 0\<rparr>"

subsection \<open>\<open>run\<close>: the column arguments\<close>

text \<open>
  The loop over \<open>flag.Args()\<close>: each argument is parsed and checked in turn, and the first
  one that fails ends the run; the others are added to the set \<open>columns\<close>.
\<close>

fun parse_columns :: "string list \<Rightarrow> int set \<Rightarrow> message + int set" where
  "parse_columns [] columns = Inr columns"
| "parse_columns (arg # rest) columns =
     (case ParseInt arg of
        Inl err \<Rightarrow> Inl (FailedToParseArgument arg err)
      | Inr c \<Rightarrow>
          if c < 1 then Inl (InvalidColumnIndex c)
          else parse_columns rest (insert c columns))"

subsection \<open>\<open>run\<close>: the separator\<close>

text \<open>
  Both \<open>-s\<close> and \<open>-t\<close> is an error; \<open>-t\<close> stands for the separator of one tab; a separator
  that is not empty is compiled as a regular expression, and \<open>separatorRegex\<close> stays \<open>nil\<close>
  (\<open>None\<close>) otherwise.
\<close>

definition resolve_separator :: "'re regexp_engine \<Rightarrow> flags \<Rightarrow> message + 're Regexp option" where
  "resolve_separator lib fl =
     (if separator fl \<noteq> [] \<and> useTabSeparator fl then Inl BothSeparators
      else
        let sep = (if useTabSeparator fl then [tab] else separator fl)
        in if sep \<noteq> [] then
             (case Compile lib sep of
                None \<Rightarrow> Inl (CouldNotParseSeparator sep)
              | Some prog \<Rightarrow> Inr (Some (sep, prog)))
           else Inr None)"

subsection \<open>\<open>run\<close>: scan and split\<close>

definition split_line :: "'re regexp_engine \<Rightarrow> 're Regexp option \<Rightarrow> string \<Rightarrow> string list" where
  "split_line lib separatorRegex text =
     (case separatorRegex of
        None \<Rightarrow> Fields text
      | Some re \<Rightarrow> Split lib re text)"

text \<open>
  \<open>fmt.Fprint(stdout, operand)\<close> with one string operand formats it with the default verb,
  which for a string is the string itself: these are the bytes the call writes.
\<close>

definition Fprint :: "string \<Rightarrow> string" where
  "Fprint operand = operand"

text \<open>
  The inner loop over the fields of one line, as the list of what its calls of \<open>fmt.Fprint\<close>
  write, in order. \<open>i\<close> is the index of the next field, and \<open>printedFirstColumn\<close> tells
  whether a field of this line has been written. \<open>line_writes\<close> adds the newline that is
  written after the loop.
\<close>

fun field_writes :: "int set \<Rightarrow> nat \<Rightarrow> bool \<Rightarrow> string list \<Rightarrow> string list" where
  "field_writes columns i printedFirstColumn [] = []"
| "field_writes columns i printedFirstColumn (f # fs) =
     (if int (i + 1) \<in> columns then
        (if printedFirstColumn then [Fprint [tab]] else []) @ [Fprint f]
        @ field_writes columns (i + 1) True fs
      else field_writes columns (i + 1) printedFirstColumn fs)"

definition line_writes :: "int set \<Rightarrow> string list \<Rightarrow> string list" where
  "line_writes columns fs = field_writes columns 0 False fs @ [Fprint [newline]]"

definition print_line :: "int set \<Rightarrow> string list \<Rightarrow> string" where
  "print_line columns fs = concat (line_writes columns fs)"

text \<open>
  The loop over the lines that the scanner yields, giving the bytes written to standard
  output. \<open>firstRow\<close> is cleared only when a line is skipped.
\<close>

fun scan_loop ::
  "'re regexp_engine \<Rightarrow> bool \<Rightarrow> int set \<Rightarrow> 're Regexp option \<Rightarrow> bool \<Rightarrow> string list \<Rightarrow> string" where
  "scan_loop lib ignoreHeader columns separatorRegex firstRow [] = []"
| "scan_loop lib ignoreHeader columns separatorRegex firstRow (text # rest) =
     (if firstRow \<and> ignoreHeader then
        scan_loop lib ignoreHeader columns separatorRegex False rest
      else
        print_line columns (split_line lib separatorRegex text)
        @ scan_loop lib ignoreHeader columns separatorRegex firstRow rest)"

definition scan_and_split ::
  "'re regexp_engine \<Rightarrow> flags \<Rightarrow> int set \<Rightarrow> 're Regexp option \<Rightarrow> reader \<Rightarrow> outcome" where
  "scan_and_split lib fl columns separatorRegex stdin =
     (case Scanner stdin of
        (lines, err) \<Rightarrow>
          \<lparr>stdout = scan_loop lib (ignoreHeaderRow fl) columns separatorRegex True lines,
           stderr = (case err of None \<Rightarrow> [] | Some e \<Rightarrow> [FailedToReadInput e]),
           exit_status = (case err of None \<Rightarrow> 0 | Some e \<Rightarrow> 1),
           scans = length lines + 1\<rparr>)"

subsection \<open>\<open>run\<close>\<close>

text \<open>
  \<open>run_parsed\<close> is the body of \<open>run\<close> after \<open>flag.Parse()\<close>, on the flag values and the
  positional arguments that are left: the column arguments first, then the test for an
  empty column set, then the separator, then the input.
\<close>

definition run_parsed :: "'re regexp_engine \<Rightarrow> flags \<Rightarrow> string list \<Rightarrow> reader \<Rightarrow> outcome" where
  "run_parsed lib fl positional stdin =
     (case parse_columns positional {} of
        Inl msg \<Rightarrow> fail msg
      | Inr columns \<Rightarrow>
          if columns = {} then usage_exit [] 1
          else
            (case resolve_separator lib fl of
               Inl msg \<Rightarrow> fail msg
             | Inr separatorRegex \<Rightarrow> scan_and_split lib fl columns separatorRegex stdin))"

text \<open>
  \<open>flag.Parse()\<close> ends the process itself when it rejects the command line: it prints its
  message and the usage and exits with status 2, or prints the usage alone and exits with
  status 0 when help was asked for with \<open>-h\<close> or \<open>-help\<close>.
\<close>

definition run :: "'re regexp_engine \<Rightarrow> string list \<Rightarrow> reader \<Rightarrow> outcome" where
  "run lib args stdin =
     (case Parse default_flags args of
        Inl ErrHelp \<Rightarrow> usage_exit [] 0
      | Inl err \<Rightarrow> usage_exit [FlagParseError err] 2
      | Inr (fl, positional) \<Rightarrow> run_parsed lib fl positional stdin)"

subsection \<open>Notions used to state the properties\<close>

text \<open>The fields of a line whose 1-based position is in the column set, in the line's order.\<close>

definition selected :: "int set \<Rightarrow> string list \<Rightarrow> string list" where
  "selected columns fs = nths fs {i. int (i + 1) \<in> columns}"

text \<open>Strings joined by single tabs.\<close>

fun join_tab :: "string list \<Rightarrow> string" where
  "join_tab [] = []"
| "join_tab [f] = f"
| "join_tab (f # g # fs) = f @ [tab] @ join_tab (g # fs)"

text \<open>The lines that are processed: all lines read, without the first when the header is skipped.\<close>

definition processed :: "bool \<Rightarrow> string list \<Rightarrow> string list" where
  "processed ignoreHeader lines = (if ignoreHeader then tl lines else lines)"

text \<open>
  A column argument is valid when it is a base-10 integer of at least 1; \<open>argument_error\<close> is
  the message that the loop over the arguments writes for one that is not.
\<close>

definition valid_column :: "string \<Rightarrow> bool" where
  "valid_column arg = (case ParseInt arg of Inl err \<Rightarrow> False | Inr c \<Rightarrow> 1 \<le> c)"

definition argument_error :: "string \<Rightarrow> message" where
  "argument_error arg =
     (case ParseInt arg of
        Inl err \<Rightarrow> FailedToParseArgument arg err
      | Inr c \<Rightarrow> InvalidColumnIndex c)"

text \<open>
  The description of the default splitting in words: cut the line at every white-space
  rune, which leaves an empty token between two adjacent ones and at a white end of the
  line, then drop the empty tokens.
\<close>

function cut_at_spaces :: "string \<Rightarrow> string \<Rightarrow> string list" where
  "cut_at_spaces cur s =
     (if s = [] then [cur]
      else if IsSpace (rune_at s) then cur # cut_at_spaces [] (drop (rune_width s) s)
      else cut_at_spaces (cur @ take (rune_width s) s) (drop (rune_width s) s))"
  by pat_completeness auto
termination
  by (relation "measure (\<lambda>(cur, s). length s)") (auto simp: rune_width_pos)

declare cut_at_spaces.simps [simp del]

definition whitespace_split :: "string \<Rightarrow> string list" where
  "whitespace_split s = filter (\<lambda>t. t \<noteq> []) (cut_at_spaces [] s)"

text \<open>A string that consists of white-space runes only.\<close>

function white :: "string \<Rightarrow> bool" where
  "white s =
     (if s = [] then True
      else if IsSpace (rune_at s) then white (drop (rune_width s) s)
      else False)"
  by pat_completeness auto
termination
  by (relation "measure length") (auto simp: rune_width_pos)

declare white.simps [simp del]

subsection \<open>A matcher for literal patterns\<close>

text \<open>
  The simplest regular-expression matcher: it compiles the patterns that are not empty and
  hold no metacharacter, which match themselves, and finds the successive occurrences of
  such a pattern from left to right. \<open>skip\<close> counts the bytes of the last match that are
  still to be passed.
\<close>

definition metacharacters :: "char set" where
  \<open>metacharacters = insert (CHR 0x5C) (set ''.+*?()|[]{}^$'')\<close>

definition literal_Compile :: "string \<Rightarrow> string option" where
  "literal_Compile expr =
     (if expr \<noteq> [] \<and> (\<forall>c \<in> set expr. c \<notin> metacharacters \<and> byte c < 128) then Some expr
      else None)"

fun literal_matches :: "string \<Rightarrow> nat \<Rightarrow> nat \<Rightarrow> string \<Rightarrow> (nat \<times> nat) list" where
  "literal_matches expr pos skip [] = []"
| "literal_matches expr pos skip (c # cs) =
     (if 0 < skip then literal_matches expr (pos + 1) (skip - 1) cs
      else if take (length expr) (c # cs) = expr then
        (pos, pos + length expr) # literal_matches expr (pos + 1) (length expr - 1) cs
      else literal_matches expr (pos + 1) 0 cs)"

definition literal_engine :: "string regexp_engine" where
  "literal_engine =
     \<lparr>Compile = literal_Compile,
      FindAllStringIndex = (\<lambda>expr s. literal_matches expr 0 0 s)\<rparr>"

subsection \<open>A matcher for a starred character\<close>







subsection \<open>\<open>fmt.Fprintf\<close> without operands, and the loop of the older file\<close>

text \<open>
  The second Go file of the repository, an older state of main.go without \<open>-i\<close>, writes
  with \<open>fmt.Fprintf(stdout, f)\<close>: the field is the format, and there is no operand.
  \<open>Fprintf\<close> copies the format up to a percent sign and then reads a
  verb: flags, an argument index in brackets, a width, a precision, an index again, and the
  verb itself. With no operand every verb but \<open>%\<close> is replaced by a complaint.
\<close>

definition is_flag :: "char \<Rightarrow> bool" where
  \<open>is_flag c \<longleftrightarrow> c \<in> set ''#0+- ''\<close>

text \<open>
  \<open>parsenum\<close> reads a decimal number; it gives up on a number above a million and then
  skips to the end of the region it reads in. The result tells whether a number was read,
  and what is left of the region.
\<close>

fun parsenum_from :: "int \<Rightarrow> bool \<Rightarrow> string \<Rightarrow> bool \<times> string" where
  "parsenum_from num isnum [] = (isnum, [])"
| "parsenum_from num isnum (c # cs) =
     (if is_digit c then
        (if 1000000 < num then (False, [])
         else parsenum_from (num * 10 + digit_value c) True cs)
      else (isnum, c # cs))"

definition parsenum :: "string \<Rightarrow> bool \<times> string" where
  "parsenum s = parsenum_from 0 False s"

text \<open>
  \<open>parseArgNumber\<close> reads \<open>[n]\<close> at the head of the format: the number of bytes it takes
  and whether the index is well formed.
\<close>

definition parseArgNumber :: "string \<Rightarrow> nat \<times> bool" where
  "parseArgNumber format =
     (if length format < 3 then (1, False)
      else if CHR '']'' \<notin> set (tl format) then (1, False)
      else
        let body = takeWhile (\<lambda>c. c \<noteq> CHR '']'') (tl format)
        in (length body + 2, fst (parsenum body) \<and> snd (parsenum body) = []))"

text \<open>
  \<open>argNumber\<close> with no operand: an index, well formed or not, cannot name an operand, so
  it clears \<open>goodArgNum\<close>. The result is the rest of the format, whether an index was
  found, and \<open>goodArgNum\<close>.
\<close>

definition argNumber :: "string \<Rightarrow> string \<times> bool \<times> bool" where
  "argNumber format =
     (if format \<noteq> [] \<and> hd format = CHR ''['' then
        (drop (fst (parseArgNumber format)) format, snd (parseArgNumber format), False)
      else (format, False, True))"

definition verb_bytes :: "string \<Rightarrow> string" where
  "verb_bytes s =
     (if byte (s ! 0) < 0x80 then [s ! 0]
      else if rune_width s = 1 then [CHR 0xEF, CHR 0xBF, CHR 0xBD]
      else take (rune_width s) s)"

text \<open>
  One verb, from the byte after the percent sign: what is written for it and the rest of
  the format. A star for the width or the precision finds no operand and is complained
  about at once; a format that ends before the verb ends the output.
\<close>

definition verb_step :: "string \<Rightarrow> string \<times> string" where
  \<open>verb_step s1 =
     (case argNumber (dropWhile is_flag s1) of
        (s3, afterIndex1, good1) \<Rightarrow>
          (case (if s3 \<noteq> [] \<and> hd s3 = CHR ''*'' then (''%!(BADWIDTH)'', tl s3, False, good1)
                 else ([], snd (parsenum s3), afterIndex1,
                       good1 \<and> \<not> (afterIndex1 \<and> fst (parsenum s3)))) of
             (outw, s4, afterIndex2, good2) \<Rightarrow>
               (case (if s4 \<noteq> [] \<and> hd s4 = CHR ''.'' then
                        (case argNumber (tl s4) of
                           (s5, found, goodp) \<Rightarrow>
                             if s5 \<noteq> [] \<and> hd s5 = CHR ''*'' then
                               (''%!(BADPREC)'', tl s5, False, good2 \<and> \<not> afterIndex2 \<and> goodp)
                             else
                               ([], snd (parsenum s5), found, good2 \<and> \<not> afterIndex2 \<and> goodp))
                      else ([], s4, afterIndex2, good2)) of
                  (outp, s6, afterIndex3, good3) \<Rightarrow>
                    (case (if afterIndex3 then (s6, good3)
                           else (fst (argNumber s6), good3 \<and> snd (snd (argNumber s6)))) of
                       (s7, good4) \<Rightarrow>
                         if s7 = [] then (outw @ outp @ ''%!(NOVERB)'', [])
                         else
                           (outw @ outp
                            @ (if s7 ! 0 = CHR ''%'' then ''%''
                               else if \<not> good4 then ''%!'' @ verb_bytes s7 @ ''(BADINDEX)''
                               else ''%!'' @ verb_bytes s7 @ ''(MISSING)''),
                            drop (rune_width s7) s7)))))\<close>

lemma parsenum_from_length: "length (snd (parsenum_from num isnum s)) \<le> length s"
  by (induction s arbitrary: num isnum) (auto intro: le_SucI)

lemma parsenum_length: "length (snd (parsenum s)) \<le> length s"
  by (simp add: parsenum_def parsenum_from_length)

lemma argNumber_length: "length (fst (argNumber s)) \<le> length s"
  by (simp add: argNumber_def)

lemma verb_step_length: "length (snd (verb_step s)) \<le> length s"
proof -
  let ?s2 = "dropWhile is_flag s"
  have a: "length ?s2 \<le> length s"
    by (rule length_dropWhile_le)
  obtain s3 ai1 g1 where n1: "argNumber ?s2 = (s3, ai1, g1)"
    by (cases "argNumber ?s2") auto
  then have b: "length s3 \<le> length ?s2"
    using argNumber_length [of ?s2] by simp
  define w where "w = (if s3 \<noteq> [] \<and> hd s3 = CHR ''*'' then (''%!(BADWIDTH)'', tl s3, False, g1)
                 else ([], snd (parsenum s3), ai1, g1 \<and> \<not> (ai1 \<and> fst (parsenum s3))))"
  obtain outw s4 ai2 g2 where wv: "w = (outw, s4, ai2, g2)"
    by (cases w) auto
  then have c: "length s4 \<le> length s3"
    using parsenum_length [of s3] by (auto simp: w_def split: if_splits)
  define p where "p = (if s4 \<noteq> [] \<and> hd s4 = CHR ''.'' then
                        (case argNumber (tl s4) of
                           (s5, found, goodp) \<Rightarrow>
                             if s5 \<noteq> [] \<and> hd s5 = CHR ''*'' then
                               (''%!(BADPREC)'', tl s5, False, g2 \<and> \<not> ai2 \<and> goodp)
                             else
                               ([], snd (parsenum s5), found, g2 \<and> \<not> ai2 \<and> goodp))
                      else ([], s4, ai2, g2))"
  obtain outp s6 ai3 g3 where pv: "p = (outp, s6, ai3, g3)"
    by (cases p) auto
  have d: "length s6 \<le> length s4"
  proof (cases "s4 \<noteq> [] \<and> hd s4 = CHR ''.''")
    case True
    obtain s5 found goodp where n2: "argNumber (tl s4) = (s5, found, goodp)"
      by (cases "argNumber (tl s4)") auto
    then have "length s5 \<le> length (tl s4)"
      using argNumber_length [of "tl s4"] by simp
    moreover have "length s6 \<le> length s5"
      using pv True n2 parsenum_length [of s5] by (auto simp: p_def split: if_splits)
    ultimately show ?thesis by simp
  next
    case False
    with pv show ?thesis by (auto simp: p_def)
  qed
  define v where "v = (if ai3 then (s6, g3)
                           else (fst (argNumber s6), g3 \<and> snd (snd (argNumber s6))))"
  obtain s7 g4 where vv: "v = (s7, g4)"
    by (cases v) auto
  then have e: "length s7 \<le> length s6"
    using argNumber_length [of s6] by (auto simp: v_def split: if_splits)
  have "snd (verb_step s) = (if s7 = [] then [] else drop (rune_width s7) s7)"
    unfolding verb_step_def n1 prod.case w_def [symmetric] wv p_def [symmetric] pv
      v_def [symmetric] vv
    by simp
  then have "length (snd (verb_step s)) \<le> length s7"
    by simp
  with a b c d e show ?thesis by linarith
qed

function doPrintf :: "string \<Rightarrow> string" where
  "doPrintf format =
     (if dropWhile (\<lambda>c. c \<noteq> CHR 0x25) format = [] then format
      else takeWhile (\<lambda>c. c \<noteq> CHR 0x25) format
           @ fst (verb_step (tl (dropWhile (\<lambda>c. c \<noteq> CHR 0x25) format)))
           @ doPrintf (snd (verb_step (tl (dropWhile (\<lambda>c. c \<noteq> CHR 0x25) format)))))"
  by pat_completeness auto
termination
proof (relation "measure length", simp)
  fix format :: string
  assume ne: "dropWhile (\<lambda>c. c \<noteq> CHR 0x25) format \<noteq> []"
  have "length (snd (verb_step (tl (dropWhile (\<lambda>c. c \<noteq> CHR 0x25) format))))
      \<le> length (tl (dropWhile (\<lambda>c. c \<noteq> CHR 0x25) format))"
    by (rule verb_step_length)
  also have "\<dots> < length (dropWhile (\<lambda>c. c \<noteq> CHR 0x25) format)"
    using ne by simp
  also have "\<dots> \<le> length format"
    by (rule length_dropWhile_le)
  finally show "(snd (verb_step (tl (dropWhile (\<lambda>c. c \<noteq> CHR 0x25) format))), format)
      \<in> measure length"
    by simp
qed

declare doPrintf.simps [simp del]

definition Fprintf :: "string \<Rightarrow> string" where
  "Fprintf format = doPrintf format"

fun field_writes_part_001 :: "int set \<Rightarrow> nat \<Rightarrow> bool \<Rightarrow> string list \<Rightarrow> string list" where
  "field_writes_part_001 columns i printedFirstColumn [] = []"
| "field_writes_part_001 columns i printedFirstColumn (f # fs) =
     (if int (i + 1) \<in> columns then
        (if printedFirstColumn then [Fprintf [tab]] else []) @ [Fprintf f]
        @ field_writes_part_001 columns (i + 1) True fs
      else field_writes_part_001 columns (i + 1) printedFirstColumn fs)"

definition line_writes_part_001 :: "int set \<Rightarrow> string list \<Rightarrow> string list" where
  "line_writes_part_001 columns fs =
     field_writes_part_001 columns 0 False fs @ [Fprintf [newline]]"

text \<open>
  The rest of \<open>run\<close> in the older file, after \<open>flag.Parse()\<close>: the column arguments, the
  separator, and the loop over the lines read. It has no test for an empty column set and
  never skips a line.
\<close>

definition scan_and_split_part_001 ::
  "'re regexp_engine \<Rightarrow> int set \<Rightarrow> 're Regexp option \<Rightarrow> reader \<Rightarrow> outcome" where
  "scan_and_split_part_001 lib columns separatorRegex stdin =
     (case Scanner stdin of
        (lines, err) \<Rightarrow>
          \<lparr>stdout = concat (map (\<lambda>text. concat (line_writes_part_001 columns
                                               (split_line lib separatorRegex text))) lines),
           stderr = (case err of None \<Rightarrow> [] | Some e \<Rightarrow> [FailedToReadInput e]),
           exit_status = (case err of None \<Rightarrow> 0 | Some e \<Rightarrow> 1),
           scans = length lines + 1\<rparr>)"

definition run_parsed_part_001 ::
  "'re regexp_engine \<Rightarrow> flags \<Rightarrow> string list \<Rightarrow> reader \<Rightarrow> outcome" where
  "run_parsed_part_001 lib fl positional stdin =
     (case parse_columns positional {} of
        Inl msg \<Rightarrow> fail msg
      | Inr columns \<Rightarrow>
          (case resolve_separator lib fl of
             Inl msg \<Rightarrow> fail msg
           | Inr separatorRegex \<Rightarrow> scan_and_split_part_001 lib columns separatorRegex stdin))"

section \<open>Properties\<close>

subsection \<open>From the command line to the output\<close>

lemma parse_columns_set:
  "parse_columns positional acc = Inr columns \<Longrightarrow>
   columns = acc \<union> {c. \<exists>arg \<in> set positional. ParseInt arg = Inr c}
   \<and> (\<forall>arg \<in> set positional. valid_column arg)"
proof (induction positional arbitrary: acc)
  case Nil
  then show ?case by simp
next
  case (Cons a positional)
  from Cons.prems obtain c where c: "ParseInt a = Inr c" "\<not> c < 1"
      and rest: "parse_columns positional (insert c acc) = Inr columns"
    by (auto split: sum.splits if_splits)
  from Cons.IH [OF rest] c show ?case
    by (auto simp: valid_column_def)
qed

lemma run_reaches_input:
  assumes "Parse default_flags args = Inr (fl, positional)"
    and "parse_columns positional {} = Inr columns"
    and "columns \<noteq> {}"
    and "resolve_separator lib fl = Inr separatorRegex"
  shows "run lib args stdin = scan_and_split lib fl columns separatorRegex stdin"
  using assms by (simp add: run_def run_parsed_def)

lemma scan_loop_no_skip:
  "\<not> (firstRow \<and> ignoreHeader) \<Longrightarrow>
   scan_loop lib ignoreHeader columns re firstRow lines =
     concat (map (\<lambda>text. print_line columns (split_line lib re text)) lines)"
  by (induction lines) auto

lemma scan_loop_processed:
  "scan_loop lib ignoreHeader columns re True lines =
     concat (map (\<lambda>text. print_line columns (split_line lib re text))
                 (processed ignoreHeader lines))"
proof (cases lines)
  case Nil
  then show ?thesis by (simp add: processed_def)
next
  case (Cons first rest)
  then show ?thesis
    by (cases ignoreHeader) (simp_all add: processed_def scan_loop_no_skip)
qed

lemma stdout_scan_and_split:
  "stdout (scan_and_split lib fl columns re stdin) =
     concat (map (\<lambda>text. print_line columns (split_line lib re text))
                 (processed (ignoreHeaderRow fl) (fst (Scanner stdin))))"
  by (simp add: scan_and_split_def scan_loop_processed split: prod.splits)

lemma concat_field_writes:
  "concat (field_writes columns i p fs) =
     (if p \<and> nths fs {j. int (i + j + 1) \<in> columns} \<noteq> [] then [tab] else [])
     @ join_tab (nths fs {j. int (i + j + 1) \<in> columns})"
proof (induction fs arbitrary: i p)
  case Nil
  then show ?case by simp
next
  case (Cons f fs)
  have shift: "{j. int (i + Suc j + 1) \<in> columns} = {j. int (Suc i + j + 1) \<in> columns}"
    by simp
  show ?case
  proof (cases "int (i + 1) \<in> columns")
    case True
    then show ?thesis
      using Cons.IH [of "i + 1" True]
      apply (simp add: nths_Cons Fprint_def shift)
      apply (cases "nths fs {j. int (Suc i + j + 1) \<in> columns}")
       apply (auto)
      done
  next
    case False
    then show ?thesis
      using Cons.IH [of "i + 1" p] by (simp add: nths_Cons shift)
  qed
qed

lemma print_line_selected:
  "print_line columns fs = join_tab (selected columns fs) @ [newline]"
  by (simp add: print_line_def line_writes_def concat_field_writes selected_def Fprint_def)

lemma length_selected:
  "length (selected columns fs) = card {c \<in> columns. 1 \<le> c \<and> c \<le> int (length fs)}"
proof -
  have "{c \<in> columns. 1 \<le> c \<and> c \<le> int (length fs)}
        = (\<lambda>i. int (i + 1)) ` {i. i < length fs \<and> int (i + 1) \<in> columns}"
  proof (rule set_eqI, rule iffI)
    fix c assume "c \<in> {c \<in> columns. 1 \<le> c \<and> c \<le> int (length fs)}"
    then have "c \<in> columns" "1 \<le> c" "c \<le> int (length fs)" by auto
    then have "nat (c - 1) < length fs \<and> int (nat (c - 1) + 1) \<in> columns \<and> c = int (nat (c - 1) + 1)"
      by auto
    then show "c \<in> (\<lambda>i. int (i + 1)) ` {i. i < length fs \<and> int (i + 1) \<in> columns}"
      by blast
  next
    fix c assume "c \<in> (\<lambda>i. int (i + 1)) ` {i. i < length fs \<and> int (i + 1) \<in> columns}"
    then show "c \<in> {c \<in> columns. 1 \<le> c \<and> c \<le> int (length fs)}" by auto
  qed
  moreover have "inj_on (\<lambda>i. int (i + 1)) {i. i < length fs \<and> int (i + 1) \<in> columns}"
    by (auto simp: inj_on_def)
  ultimately have "card {c \<in> columns. 1 \<le> c \<and> c \<le> int (length fs)}
      = card {i. i < length fs \<and> int (i + 1) \<in> columns}"
    by (simp add: card_image)
  then show ?thesis
    by (simp add: selected_def length_nths)
qed

lemma nths_agree:
  assumes "\<And>i. i < length fs \<Longrightarrow> i \<in> A \<longleftrightarrow> i \<in> B"
  shows "nths fs A = nths fs B"
proof -
  have "filter (\<lambda>p. snd p \<in> A) (zip fs [0..<length fs])
        = filter (\<lambda>p. snd p \<in> B) (zip fs [0..<length fs])"
    by (rule filter_cong) (auto dest!: set_zip_rightD simp: assms)
  then show ?thesis by (simp add: nths_def)
qed

lemma selected_restrict:
  "selected {c \<in> columns. c \<le> int (length fs)} fs = selected columns fs"
  unfolding selected_def by (rule nths_agree) auto

lemma selected_none:
  assumes "\<forall>c \<in> columns. c < 1 \<or> int (length fs) < c"
  shows "selected columns fs = []"
proof -
  have "nths fs {i. int (i + 1) \<in> columns} = nths fs {}"
    by (rule nths_agree) (use assms in force)
  then show ?thesis by (simp add: selected_def)
qed

text \<open>
  C1. For every input line that is processed (all lines read, without the first one when
  the header is skipped), the program writes exactly the fields whose 1-based position is
  in the column set, in the order of the line, joined by single tabs, and then one newline.
  The number of fields written is the number of requested columns that the line has;
  columns beyond the fields of the line change nothing, and a line that has none of the
  requested columns gives an empty output line, a newline alone. The column set is the set
  of the numbers given as positional arguments. A requested column that a line does not
  have is passed over in silence: the error stream and the exit status depend on the
  scanner alone, and when the scanner ends without error nothing is written to the error
  stream and the status is 0.
\<close>

theorem selected_fields_written:
  assumes "Parse default_flags args = Inr (fl, positional)"
    and "parse_columns positional {} = Inr columns"
    and "columns \<noteq> {}"
    and "resolve_separator lib fl = Inr separatorRegex"
  shows "run lib args stdin =
           \<lparr>stdout =
              concat (map (\<lambda>text. join_tab (selected columns (split_line lib separatorRegex text)) @ [newline])
                          (processed (ignoreHeaderRow fl) (fst (Scanner stdin)))),
            stderr = (case snd (Scanner stdin) of None \<Rightarrow> [] | Some e \<Rightarrow> [FailedToReadInput e]),
            exit_status = (case snd (Scanner stdin) of None \<Rightarrow> 0 | Some e \<Rightarrow> 1),
            scans = length (fst (Scanner stdin)) + 1\<rparr>
         \<and> (snd (Scanner stdin) = None \<longrightarrow>
               stderr (run lib args stdin) = [] \<and> exit_status (run lib args stdin) = 0)
         \<and> selected columns fs = nths fs {i. int (i + 1) \<in> columns}
         \<and> length (selected columns fs) = card {c \<in> columns. 1 \<le> c \<and> c \<le> int (length fs)}
         \<and> selected {c \<in> columns. c \<le> int (length fs)} fs = selected columns fs
         \<and> ((\<forall>c \<in> columns. c < 1 \<or> int (length fs) < c) \<longrightarrow>
               join_tab (selected columns fs) @ [newline] = [newline])
         \<and> columns = {c. \<exists>arg \<in> set positional. ParseInt arg = Inr c}"
proof -
  have reach: "run lib args stdin = scan_and_split lib fl columns separatorRegex stdin"
    using assms by (rule run_reaches_input)
  have whole: "run lib args stdin =
           \<lparr>stdout =
              concat (map (\<lambda>text. join_tab (selected columns (split_line lib separatorRegex text)) @ [newline])
                          (processed (ignoreHeaderRow fl) (fst (Scanner stdin)))),
            stderr = (case snd (Scanner stdin) of None \<Rightarrow> [] | Some e \<Rightarrow> [FailedToReadInput e]),
            exit_status = (case snd (Scanner stdin) of None \<Rightarrow> 0 | Some e \<Rightarrow> 1),
            scans = length (fst (Scanner stdin)) + 1\<rparr>"
    unfolding reach
    by (simp add: scan_and_split_def scan_loop_processed print_line_selected split: prod.splits)
  have "snd (Scanner stdin) = None \<longrightarrow>
               stderr (run lib args stdin) = [] \<and> exit_status (run lib args stdin) = 0"
    unfolding reach by (simp add: scan_and_split_def split: prod.splits)
  note whole this
  moreover have "selected columns fs = nths fs {i. int (i + 1) \<in> columns}"
    by (simp add: selected_def)
  moreover have "length (selected columns fs) = card {c \<in> columns. 1 \<le> c \<and> c \<le> int (length fs)}"
    by (rule length_selected)
  moreover have "selected {c \<in> columns. c \<le> int (length fs)} fs = selected columns fs"
    by (rule selected_restrict)
  moreover have "(\<forall>c \<in> columns. c < 1 \<or> int (length fs) < c) \<longrightarrow>
           join_tab (selected columns fs) @ [newline] = [newline]"
    by (simp add: selected_none)
  moreover have "columns = {c. \<exists>arg \<in> set positional. ParseInt arg = Inr c}"
    using parse_columns_set [OF assms(2)] by simp
  ultimately show ?thesis by blast
qed

theorem selected_fields_written_witness:
  "run literal_engine [''1'', ''3''] \<lparr>data = ''a b'' @ [newline], read_fails = False\<rparr>
     = \<lparr>stdout = ''a'' @ [newline], stderr = [], exit_status = 0, scans = 2\<rparr>
   \<and> length (selected {3, 1} [''a'', ''b'']) = 1
   \<and> run literal_engine [''3''] \<lparr>data = ''a b'' @ [newline], read_fails = False\<rparr>
     = \<lparr>stdout = [newline], stderr = [], exit_status = 0, scans = 2\<rparr>
   \<and> stderr (run literal_engine [''3''] \<lparr>data = ''a b'' @ [newline], read_fails = False\<rparr>) = []
   \<and> exit_status (run literal_engine [''3''] \<lparr>data = ''a b'' @ [newline], read_fails = False\<rparr>) = 0"
proof -
  have flags13: "Parse default_flags [''1'', ''3''] = Inr (default_flags, [''1'', ''3''])"
    by simp
  have flags3: "Parse default_flags [''3''] = Inr (default_flags, [''3''])"
    by simp
  have cols13: "parse_columns [''1'', ''3''] {} = Inr {3, 1}"
    by code_simp
  have cols3: "parse_columns [''3''] {} = Inr {3}"
    by code_simp
  have sep: "resolve_separator literal_engine default_flags = Inr None"
    by (simp add: resolve_separator_def default_flags_def)
  have lines: "Scanner \<lparr>data = ''a b'' @ [newline], read_fails = False\<rparr> = ([''a b''], None)"
    by code_simp
  have split: "split_line literal_engine None ''a b'' = [''a'', ''b'']"
    by code_simp
  have none: "\<forall>c \<in> {3::int}. c < 1 \<or> int (length [''a'', ''b'']) < c"
    by simp
  have sel: "selected {3, 1} [''a'', ''b''] = [''a'']"
    by (simp add: selected_def nths_Cons)
  have card: "card {c \<in> {3, 1::int}. 1 \<le> c \<and> c \<le> int (length [''a'', ''b''])} = 1"
  proof -
    have "{c \<in> {3, 1::int}. 1 \<le> c \<and> c \<le> int (length [''a'', ''b''])} = {1}" by auto
    then show ?thesis by simp
  qed
  have ne13: "{3, 1::int} \<noteq> {}" and ne3: "{3::int} \<noteq> {}"
    by simp_all
  note first = selected_fields_written [OF flags13 cols13 ne13 sep,
      of "\<lparr>data = ''a b'' @ [newline], read_fails = False\<rparr>" "[''a'', ''b'']"]
  note second = selected_fields_written [OF flags3 cols3 ne3 sep,
      of "\<lparr>data = ''a b'' @ [newline], read_fails = False\<rparr>" "[''a'', ''b'']"]
  have "run literal_engine [''1'', ''3''] \<lparr>data = ''a b'' @ [newline], read_fails = False\<rparr>
     = \<lparr>stdout = ''a'' @ [newline], stderr = [], exit_status = 0, scans = 2\<rparr>"
    unfolding first [THEN conjunct1] lines
    by (simp add: split sel processed_def default_flags_def)
  moreover have "length (selected {3, 1} [''a'', ''b'']) = 1"
    using first [THEN conjunct2, THEN conjunct2, THEN conjunct2, THEN conjunct1] card by simp
  moreover have "run literal_engine [''3''] \<lparr>data = ''a b'' @ [newline], read_fails = False\<rparr>
     = \<lparr>stdout = [newline], stderr = [], exit_status = 0, scans = 2\<rparr>"
    unfolding second [THEN conjunct1] lines
    using second [THEN conjunct2, THEN conjunct2, THEN conjunct2, THEN conjunct2,
        THEN conjunct2, THEN conjunct1] none
    by (simp add: split processed_def default_flags_def)
  moreover have "stderr (run literal_engine [''3''] \<lparr>data = ''a b'' @ [newline], read_fails = False\<rparr>) = []
      \<and> exit_status (run literal_engine [''3''] \<lparr>data = ''a b'' @ [newline], read_fails = False\<rparr>) = 0"
  proof -
    have "snd (Scanner \<lparr>data = ''a b'' @ [newline], read_fails = False\<rparr>) = None"
      unfolding lines by simp
    with second [THEN conjunct2, THEN conjunct1] show ?thesis
      by blast
  qed
  ultimately show ?thesis by blast
qed

subsection \<open>Validation of the command line\<close>

lemma parse_columns_first_bad:
  assumes "\<forall>a \<in> set good. valid_column a" and "\<not> valid_column bad"
  shows "parse_columns (good @ bad # rest) columns = Inl (argument_error bad)"
  using assms
proof (induction good arbitrary: columns)
  case Nil
  then show ?case
    by (auto simp: valid_column_def argument_error_def split: sum.splits)
next
  case (Cons a good)
  then show ?case
    by (auto simp: valid_column_def split: sum.splits)
qed

lemma parse_columns_message:
  "parse_columns positional columns = Inl msg \<Longrightarrow>
   msg \<noteq> BothSeparators \<and> msg \<noteq> CouldNotParseSeparator sep"
  by (induction positional arbitrary: columns) (auto split: sum.splits if_splits)




text \<open>
  C4. The first positional argument that is not a valid column number (it does not parse as
  a base-10 integer, or it parses to a value below 1) ends the run with status 1 and one
  message about this argument on the error stream; nothing is written to standard output
  and no input is read. The arguments after it are not examined: the outcome is the same
  whatever they are.
\<close>

theorem first_bad_argument:
  assumes "Parse default_flags args = Inr (fl, good @ bad # rest)"
    and "\<forall>a \<in> set good. valid_column a"
    and "\<not> valid_column bad"
  shows "run lib args stdin =
           \<lparr>stdout = [], stderr = [argument_error bad], exit_status = 1, scans = 0\<rparr>
         \<and> parse_columns (good @ bad # rest) {} = parse_columns (good @ bad # others) {}"
  using assms by (simp add: run_def run_parsed_def fail_def parse_columns_first_bad)

theorem first_bad_argument_witness:
  "run literal_engine [''2'', ''x'', ''0''] \<lparr>data = ''a b'' @ [newline], read_fails = False\<rparr> =
     \<lparr>stdout = [], stderr = [FailedToParseArgument ''x'' ErrSyntax], exit_status = 1, scans = 0\<rparr>
   \<and> run literal_engine [''2'', ''0'', ''x''] \<lparr>data = ''a b'' @ [newline], read_fails = False\<rparr> =
     \<lparr>stdout = [], stderr = [InvalidColumnIndex 0], exit_status = 1, scans = 0\<rparr>"
proof -
  have flags1: "Parse default_flags [''2'', ''x'', ''0''] = Inr (default_flags, [''2''] @ ''x'' # [''0''])"
    by simp
  have flags2: "Parse default_flags [''2'', ''0'', ''x''] = Inr (default_flags, [''2''] @ ''0'' # [''x''])"
    by simp
  have good: "\<forall>a \<in> set [''2'']. valid_column a"
    by code_simp
  have bad_x: "\<not> valid_column ''x''"
    by code_simp
  have bad_0: "\<not> valid_column ''0''"
    by code_simp
  have msg_x: "argument_error ''x'' = FailedToParseArgument ''x'' ErrSyntax"
    by code_simp
  have msg_0: "argument_error ''0'' = InvalidColumnIndex 0"
    by code_simp
  show ?thesis
    using first_bad_argument [OF flags1 good bad_x, of literal_engine]
      first_bad_argument [OF flags2 good bad_0, of literal_engine]
    unfolding msg_x msg_0 by blast
qed

text \<open>
  C5, as amended. When the flags give both a separator that is not empty and the tab
  shorthand, and the positional arguments are all valid column numbers, at least one of
  them, the run fails with the message that \<open>-s\<close> and \<open>-t\<close> cannot both be used: it ends with
  status 1, writes nothing to standard output and reads no input.
\<close>

theorem both_separators_error:
  assumes "Parse default_flags args = Inr (fl, positional)"
    and "separator fl \<noteq> []" and "useTabSeparator fl"
    and "parse_columns positional {} = Inr columns" and "columns \<noteq> {}"
  shows "run lib args stdin =
           \<lparr>stdout = [], stderr = [BothSeparators], exit_status = 1, scans = 0\<rparr>"
  using assms by (simp add: run_def run_parsed_def resolve_separator_def fail_def)

theorem both_separators_error_witness:
  "run literal_engine [''-s'', '','', ''-t'', ''1''] \<lparr>data = ''a,b'' @ [newline], read_fails = False\<rparr> =
     \<lparr>stdout = [], stderr = [BothSeparators], exit_status = 1, scans = 0\<rparr>"
proof -
  have flags: "Parse default_flags [''-s'', '','', ''-t'', ''1''] =
      Inr (\<lparr>separator = '','', useTabSeparator = True, ignoreHeaderRow = False\<rparr>, [''1''])"
    by (simp add: split_value_def set_bool_flag_def default_flags_def)
  have cols: "parse_columns [''1''] {} = Inr {1}"
    by code_simp
  have nonempty: "{1::int} \<noteq> {}"
    by simp
  show ?thesis
    using both_separators_error [OF flags _ _ cols nonempty, of literal_engine] by simp
qed

text \<open>
  The claim C5 as it is written fails when no column is given: with \<open>-s ,\<close> and \<open>-t\<close> and
  no column argument the run takes the usage path, the message about \<open>-s\<close> and \<open>-t\<close> is not
  written, and standard output is not empty.
\<close>

theorem both_separators_without_columns:
  "Parse default_flags [''-s'', '','', ''-t''] =
     Inr (\<lparr>separator = '','', useTabSeparator = True, ignoreHeaderRow = False\<rparr>, [])
   \<and> stderr (run literal_engine [''-s'', '','', ''-t'']
         \<lparr>data = ''a,b'' @ [newline], read_fails = False\<rparr>) = [FlagDefaults]
   \<and> BothSeparators \<notin> set (stderr (run literal_engine [''-s'', '','', ''-t'']
         \<lparr>data = ''a,b'' @ [newline], read_fails = False\<rparr>))
   \<and> stdout (run literal_engine [''-s'', '','', ''-t'']
         \<lparr>data = ''a,b'' @ [newline], read_fails = False\<rparr>) = usage_text
   \<and> usage_text \<noteq> []"
proof -
  have flags: "Parse default_flags [''-s'', '','', ''-t''] =
      Inr (\<lparr>separator = '','', useTabSeparator = True, ignoreHeaderRow = False\<rparr>, [])"
    by (simp add: split_value_def set_bool_flag_def default_flags_def)
  have "usage_text \<noteq> []"
    by (simp add: usage_text_def usage_lines_def)
  with flags show ?thesis
    by (simp add: run_def run_parsed_def usage_exit_def)
qed

text \<open>
  C10. The test for an empty column set comes before the separator is looked at. With no
  column argument the run takes the usage path whatever the flags \<open>-s\<close> and \<open>-t\<close> say, and
  writes neither the message about both separators nor the one about a separator that does
  not compile. Whenever one of these two messages is written, the positional arguments
  were all valid and gave a column set that is not empty.
\<close>

theorem columns_checked_before_separator:
  "(Parse default_flags args = Inr (fl, []) \<longrightarrow>
      run lib args stdin =
        \<lparr>stdout = usage_text, stderr = [FlagDefaults], exit_status = 1, scans = 0\<rparr>
      \<and> BothSeparators \<notin> set (stderr (run lib args stdin))
      \<and> CouldNotParseSeparator sep \<notin> set (stderr (run lib args stdin)))
   \<and> (BothSeparators \<in> set (stderr (run lib args' stdin'))
        \<or> CouldNotParseSeparator sep' \<in> set (stderr (run lib args' stdin')) \<longrightarrow>
      (\<exists>fl' positional columns.
          Parse default_flags args' = Inr (fl', positional)
          \<and> parse_columns positional {} = Inr columns \<and> columns \<noteq> {} \<and> positional \<noteq> []))"
proof (intro conjI impI)
  assume p: "Parse default_flags args = Inr (fl, [])"
  then show "run lib args stdin =
        \<lparr>stdout = usage_text, stderr = [FlagDefaults], exit_status = 1, scans = 0\<rparr>"
    by (simp add: run_def run_parsed_def usage_exit_def)
  from p show "BothSeparators \<notin> set (stderr (run lib args stdin))"
    by (simp add: run_def run_parsed_def usage_exit_def)
  from p show "CouldNotParseSeparator sep \<notin> set (stderr (run lib args stdin))"
    by (simp add: run_def run_parsed_def usage_exit_def)
next
  assume msg: "BothSeparators \<in> set (stderr (run lib args' stdin'))
        \<or> CouldNotParseSeparator sep' \<in> set (stderr (run lib args' stdin'))"
  show "\<exists>fl' positional columns.
          Parse default_flags args' = Inr (fl', positional)
          \<and> parse_columns positional {} = Inr columns \<and> columns \<noteq> {} \<and> positional \<noteq> []"
  proof (cases "Parse default_flags args'")
    case (Inl err)
    with msg show ?thesis
      by (cases err) (auto simp: run_def usage_exit_def)
  next
    case (Inr r)
    obtain fl' positional where r: "r = (fl', positional)" by (cases r) auto
    show ?thesis
    proof (cases "parse_columns positional {}")
      case (Inl m)
      with msg Inr r parse_columns_message [OF Inl] show ?thesis
        by (auto simp: run_def run_parsed_def fail_def)
    next
      case cols: (Inr columns)
      show ?thesis
      proof (cases "columns = {}")
        case True
        with msg Inr r cols show ?thesis
          by (auto simp: run_def run_parsed_def usage_exit_def)
      next
        case False
        with cols have "positional \<noteq> []" by auto
        with Inr r cols False show ?thesis by blast
      qed
    qed
  qed
qed

theorem columns_checked_before_separator_witness:
  "run literal_engine [''-s'', '','', ''-t''] \<lparr>data = ''a,b'' @ [newline], read_fails = False\<rparr> =
     \<lparr>stdout = usage_text, stderr = [FlagDefaults], exit_status = 1, scans = 0\<rparr>
   \<and> run literal_engine [''-s'', ''[''] \<lparr>data = ''a,b'' @ [newline], read_fails = False\<rparr> =
     \<lparr>stdout = usage_text, stderr = [FlagDefaults], exit_status = 1, scans = 0\<rparr>
   \<and> BothSeparators \<in> set (stderr (run literal_engine [''-s'', '','', ''-t'', ''1'']
         \<lparr>data = ''a,b'' @ [newline], read_fails = False\<rparr>))
   \<and> (\<exists>fl' positional columns.
          Parse default_flags [''-s'', '','', ''-t'', ''1''] = Inr (fl', positional)
          \<and> parse_columns positional {} = Inr columns \<and> columns \<noteq> {} \<and> positional \<noteq> [])"
proof -
  have both: "Parse default_flags [''-s'', '','', ''-t''] =
      Inr (\<lparr>separator = '','', useTabSeparator = True, ignoreHeaderRow = False\<rparr>, [])"
    by (simp add: split_value_def set_bool_flag_def default_flags_def)
  have bracket: "Parse default_flags [''-s'', ''[''] =
      Inr (\<lparr>separator = ''['', useTabSeparator = False, ignoreHeaderRow = False\<rparr>, [])"
    by (simp add: split_value_def set_bool_flag_def default_flags_def)
  have written: "BothSeparators \<in> set (stderr (run literal_engine [''-s'', '','', ''-t'', ''1'']
         \<lparr>data = ''a,b'' @ [newline], read_fails = False\<rparr>))"
    by code_simp
  note a = columns_checked_before_separator
      [of "[''-s'', '','', ''-t'']" _ literal_engine
          "\<lparr>data = ''a,b'' @ [newline], read_fails = False\<rparr>" "'',''"
          "[''-s'', '','', ''-t'', ''1'']" "\<lparr>data = ''a,b'' @ [newline], read_fails = False\<rparr>" "'',''"]
  note b = columns_checked_before_separator
      [of "[''-s'', ''['']" _ literal_engine
          "\<lparr>data = ''a,b'' @ [newline], read_fails = False\<rparr>" "''[''"
          "[''-s'', '','', ''-t'', ''1'']" "\<lparr>data = ''a,b'' @ [newline], read_fails = False\<rparr>" "'',''"]
  from a both written b bracket show ?thesis
    by blast
qed

text \<open>
  C2 does not hold of the program. \<open>flag.Parse\<close> stops at the first argument that is not a
  flag, so a flag written after a column number is left among the positional arguments and
  is then rejected as a column number: \<open>cl 1 -i\<close>, the example of the package documentation,
  fails for every input, while \<open>cl -i 1\<close> works.
\<close>

theorem flag_after_column_rejected:
  "run lib [''1'', ''-i''] stdin =
     \<lparr>stdout = [], stderr = [FailedToParseArgument ''-i'' ErrSyntax], exit_status = 1, scans = 0\<rparr>
   \<and> run lib [''-i'', ''1''] \<lparr>data = ''PID TTY'' @ [newline] @ ''7958 ttys000'' @ [newline], read_fails = False\<rparr> =
     \<lparr>stdout = ''7958'' @ [newline], stderr = [], exit_status = 0, scans = 3\<rparr>"
proof -
  have "Parse default_flags [''1'', ''-i''] = Inr (default_flags, [''1'', ''-i''])"
    by simp
  moreover have "parse_columns [''1'', ''-i''] {} = Inl (FailedToParseArgument ''-i'' ErrSyntax)"
    by code_simp
  ultimately have first: "run lib [''1'', ''-i''] stdin =
     \<lparr>stdout = [], stderr = [FailedToParseArgument ''-i'' ErrSyntax], exit_status = 1, scans = 0\<rparr>"
    by (simp add: run_def run_parsed_def fail_def)
  have flags: "Parse default_flags [''-i'', ''1''] = Inr (default_flags\<lparr>ignoreHeaderRow := True\<rparr>, [''1''])"
    by (simp add: split_value_def set_bool_flag_def)
  have cols: "parse_columns [''1''] {} = Inr {1}"
    by code_simp
  have nonempty: "{1::int} \<noteq> {}"
    by simp
  have sep: "resolve_separator lib (default_flags\<lparr>ignoreHeaderRow := True\<rparr>) = Inr None"
    by (simp add: resolve_separator_def default_flags_def)
  have lines: "Scanner \<lparr>data = ''PID TTY'' @ [newline] @ ''7958 ttys000'' @ [newline], read_fails = False\<rparr>
      = ([''PID TTY'', ''7958 ttys000''], None)"
    by code_simp
  have fields: "Fields ''7958 ttys000'' = [''7958'', ''ttys000'']"
    by code_simp
  have second: "run lib [''-i'', ''1''] \<lparr>data = ''PID TTY'' @ [newline] @ ''7958 ttys000'' @ [newline], read_fails = False\<rparr> =
     \<lparr>stdout = ''7958'' @ [newline], stderr = [], exit_status = 0, scans = 3\<rparr>"
    unfolding run_reaches_input [OF flags cols nonempty sep] scan_and_split_def lines
    by (simp add: split_line_def fields print_line_def line_writes_def Fprint_def default_flags_def)
  from first second show ?thesis by blast
qed

subsection \<open>The header row\<close>

text \<open>
  C8. With \<open>-i\<close> the first line that is read is dropped, whatever it holds, and every other
  line gives its output line: the output is the output of the lines after the first, as
  without \<open>-i\<close> on those lines alone. For the input \<open>name age\<close>, \<open>bob 30\<close> and the
  arguments \<open>-i 2\<close> the output is \<open>30\<close> and a newline.
\<close>

theorem header_row_skipped:
  assumes "Parse default_flags args = Inr (fl, positional)"
    and "ignoreHeaderRow fl"
    and "parse_columns positional {} = Inr columns"
    and "columns \<noteq> {}"
    and "resolve_separator lib fl = Inr separatorRegex"
  shows "stdout (run lib args stdin) =
           concat (map (\<lambda>text. print_line columns (split_line lib separatorRegex text))
                       (tl (fst (Scanner stdin))))
         \<and> scan_loop lib True columns separatorRegex True (first # rest) =
             scan_loop lib True columns separatorRegex True (other # rest)
         \<and> scan_loop lib True columns separatorRegex True (first # rest) =
             scan_loop lib False columns separatorRegex True rest
         \<and> run lib [''-i'', ''2'']
               \<lparr>data = ''name age'' @ [newline] @ ''bob 30'' @ [newline], read_fails = False\<rparr> =
             \<lparr>stdout = ''30'' @ [newline], stderr = [], exit_status = 0, scans = 3\<rparr>"
proof -
  have "run lib args stdin = scan_and_split lib fl columns separatorRegex stdin"
    using assms(1,3,4,5) by (rule run_reaches_input)
  then have "stdout (run lib args stdin) =
           concat (map (\<lambda>text. print_line columns (split_line lib separatorRegex text))
                       (tl (fst (Scanner stdin))))"
    using assms(2) by (simp add: stdout_scan_and_split processed_def)
  moreover have "scan_loop lib True columns separatorRegex True (first # rest) =
             scan_loop lib True columns separatorRegex True (other # rest)"
    by simp
  moreover have "scan_loop lib True columns separatorRegex True (first # rest) =
             scan_loop lib False columns separatorRegex True rest"
    by (simp add: scan_loop_no_skip)
  moreover have "run lib [''-i'', ''2'']
               \<lparr>data = ''name age'' @ [newline] @ ''bob 30'' @ [newline], read_fails = False\<rparr> =
             \<lparr>stdout = ''30'' @ [newline], stderr = [], exit_status = 0, scans = 3\<rparr>"
  proof -
    have flags: "Parse default_flags [''-i'', ''2''] =
        Inr (default_flags\<lparr>ignoreHeaderRow := True\<rparr>, [''2''])"
      by (simp add: split_value_def set_bool_flag_def)
    have cols: "parse_columns [''2''] {} = Inr {2}"
      by code_simp
    have nonempty: "{2::int} \<noteq> {}"
      by simp
    have sep: "resolve_separator lib (default_flags\<lparr>ignoreHeaderRow := True\<rparr>) = Inr None"
      by (simp add: resolve_separator_def default_flags_def)
    have lines: "Scanner \<lparr>data = ''name age'' @ [newline] @ ''bob 30'' @ [newline], read_fails = False\<rparr>
        = ([''name age'', ''bob 30''], None)"
      by code_simp
    have fields: "Fields ''bob 30'' = [''bob'', ''30'']"
      by code_simp
    show ?thesis
      unfolding run_reaches_input [OF flags cols nonempty sep] scan_and_split_def lines
      by (simp add: split_line_def fields print_line_def line_writes_def Fprint_def
            default_flags_def)
  qed
  ultimately show ?thesis by blast
qed

theorem header_row_skipped_witness:
  "stdout (run literal_engine [''-i'', ''-s'', '','', ''1'']
       \<lparr>data = ''h1,h2'' @ [newline] @ ''a,b'' @ [newline] @ ''c,d'' @ [newline], read_fails = False\<rparr>)
     = ''a'' @ [newline] @ ''c'' @ [newline]"
proof -
  have flags: "Parse default_flags [''-i'', ''-s'', '','', ''1''] =
      Inr (\<lparr>separator = '','', useTabSeparator = False, ignoreHeaderRow = True\<rparr>, [''1''])"
    by (simp add: split_value_def set_bool_flag_def default_flags_def)
  have header: "ignoreHeaderRow \<lparr>separator = '','', useTabSeparator = False, ignoreHeaderRow = True\<rparr>"
    by simp
  have cols: "parse_columns [''1''] {} = Inr {1}"
    by code_simp
  have nonempty: "{1::int} \<noteq> {}"
    by simp
  have sep: "resolve_separator literal_engine
      \<lparr>separator = '','', useTabSeparator = False, ignoreHeaderRow = True\<rparr> = Inr (Some ('','', '',''))"
    by code_simp
  have lines: "Scanner \<lparr>data = ''h1,h2'' @ [newline] @ ''a,b'' @ [newline] @ ''c,d'' @ [newline],
      read_fails = False\<rparr> = ([''h1,h2'', ''a,b'', ''c,d''], None)"
    by code_simp
  have line1: "print_line {1} (split_line literal_engine (Some ('','', '','')) ''a,b'') = ''a'' @ [newline]"
    by code_simp
  have line2: "print_line {1} (split_line literal_engine (Some ('','', '','')) ''c,d'') = ''c'' @ [newline]"
    by code_simp
  show ?thesis
    unfolding header_row_skipped [OF flags header cols nonempty sep, THEN conjunct1] lines
    by (simp add: line1 line2)
qed

subsection \<open>Fields are written as they are\<close>

lemma field_writes_cases:
  "x \<in> set (field_writes columns i p fs) \<Longrightarrow>
   x = [tab] \<or> (\<exists>j. j < length fs \<and> int (i + j + 1) \<in> columns \<and> x = fs ! j)"
proof (induction fs arbitrary: i p)
  case Nil
  then show ?case by simp
next
  case (Cons f fs)
  have later: "x = [tab] \<or> (\<exists>j. j < length (f # fs) \<and> int (i + j + 1) \<in> columns \<and> x = (f # fs) ! j)"
    if "x \<in> set (field_writes columns (i + 1) q fs)" for q
  proof -
    from Cons.IH [OF that]
    consider "x = [tab]" | j where "j < length fs" "int (i + 1 + j + 1) \<in> columns" "x = fs ! j"
      by blast
    then show ?thesis
    proof cases
      case 1
      then show ?thesis by simp
    next
      case 2
      then have "Suc j < length (f # fs) \<and> int (i + Suc j + 1) \<in> columns \<and> x = (f # fs) ! Suc j"
        by simp
      then show ?thesis by blast
    qed
  qed
  show ?case
  proof (cases "int (i + 1) \<in> columns")
    case True
    with Cons.prems have "x = [tab] \<or> x = f \<or> x \<in> set (field_writes columns (i + 1) True fs)"
      by (auto simp: Fprint_def split: if_splits)
    moreover have "0 < length (f # fs) \<and> int (i + 0 + 1) \<in> columns \<and> f = (f # fs) ! 0"
      using True by simp
    ultimately show ?thesis using later by blast
  next
    case False
    with Cons.prems have "x \<in> set (field_writes columns (i + 1) p fs)"
      by simp
    then show ?thesis by (rule later)
  qed
qed

lemma field_writes_member:
  "j < length fs \<Longrightarrow> int (i + j + 1) \<in> columns \<Longrightarrow> fs ! j \<in> set (field_writes columns i p fs)"
proof (induction fs arbitrary: i j p)
  case Nil
  then show ?case by simp
next
  case (Cons f fs)
  show ?case
  proof (cases j)
    case 0
    with Cons.prems show ?thesis by (simp add: Fprint_def)
  next
    case (Suc k)
    with Cons.prems have "k < length fs" "int (Suc i + k + 1) \<in> columns"
      by simp_all
    then have "fs ! k \<in> set (field_writes columns (i + 1) q fs)" for q
      using Cons.IH [of k "i + 1" q] by simp
    with Suc show ?thesis by simp
  qed
qed

lemma concat_line_writes:
  "concat (map (\<lambda>text. concat (w text)) lines) = concat (concat (map w lines))"
  by (induction lines) simp_all

text \<open>
  In main.go, which writes with \<open>fmt.Fprint\<close>, what is written for a line is made of the
  selected fields themselves, byte for byte: every write is a tab, the final newline, or
  exactly the text of a field at a requested position, and each such field is written.
  Nothing in a field is read as a format: the fields \<open>%s\<close> and \<open>100%d\<close> come out as they are.
\<close>

lemma fields_written_verbatim:
  assumes "Parse default_flags args = Inr (fl, positional)"
    and "parse_columns positional {} = Inr columns"
    and "columns \<noteq> {}"
    and "resolve_separator lib fl = Inr separatorRegex"
  shows "stdout (run lib args stdin) =
           concat (concat (map (\<lambda>text. line_writes columns (split_line lib separatorRegex text))
                               (processed (ignoreHeaderRow fl) (fst (Scanner stdin)))))
         \<and> set (line_writes columns fs) \<subseteq>
             insert [tab] (insert [newline] {fs ! j |j. j < length fs \<and> int (j + 1) \<in> columns})
         \<and> (j < length fs \<and> int (j + 1) \<in> columns \<longrightarrow> fs ! j \<in> set (line_writes columns fs))
         \<and> concat (line_writes {1, 2} [''%s'', ''100%d'']) = ''%s'' @ [tab] @ ''100%d'' @ [newline]"
proof -
  have "run lib args stdin = scan_and_split lib fl columns separatorRegex stdin"
    using assms by (rule run_reaches_input)
  then have "stdout (run lib args stdin) =
           concat (concat (map (\<lambda>text. line_writes columns (split_line lib separatorRegex text))
                               (processed (ignoreHeaderRow fl) (fst (Scanner stdin)))))"
    by (simp add: stdout_scan_and_split print_line_def concat_line_writes)
  moreover have "set (line_writes columns fs) \<subseteq>
             insert [tab] (insert [newline] {fs ! j |j. j < length fs \<and> int (j + 1) \<in> columns})"
  proof
    fix x assume "x \<in> set (line_writes columns fs)"
    then have "x = [newline] \<or> x \<in> set (field_writes columns 0 False fs)"
      by (auto simp: line_writes_def Fprint_def)
    then have "x = [newline] \<or> x = [tab]
        \<or> (\<exists>j. j < length fs \<and> int (j + 1) \<in> columns \<and> x = fs ! j)"
      using field_writes_cases [of x columns 0 False fs] by auto
    then show "x \<in> insert [tab] (insert [newline]
        {fs ! j |j. j < length fs \<and> int (j + 1) \<in> columns})"
      by blast
  qed
  moreover have "j < length fs \<and> int (j + 1) \<in> columns \<longrightarrow> fs ! j \<in> set (line_writes columns fs)"
    using field_writes_member [of j fs 0 columns False]
    by (simp add: line_writes_def)
  moreover have "concat (line_writes {1, 2} [''%s'', ''100%d'']) = ''%s'' @ [tab] @ ''100%d'' @ [newline]"
    by (simp add: line_writes_def Fprint_def)
  ultimately show ?thesis by blast
qed

lemma fields_written_verbatim_witness:
  "stdout (run literal_engine [''1'', ''2'']
       \<lparr>data = ''%s 100%d'' @ [newline], read_fails = False\<rparr>)
     = ''%s'' @ [tab] @ ''100%d'' @ [newline]
   \<and> ''%s'' \<in> set (line_writes {2, 1} [''%s'', ''100%d''])"
proof -
  have flags: "Parse default_flags [''1'', ''2''] = Inr (default_flags, [''1'', ''2''])"
    by simp
  have cols: "parse_columns [''1'', ''2''] {} = Inr {2, 1}"
    by code_simp
  have nonempty: "{2, 1::int} \<noteq> {}"
    by simp
  have sep: "resolve_separator literal_engine default_flags = Inr None"
    by (simp add: resolve_separator_def default_flags_def)
  have lines: "Scanner \<lparr>data = ''%s 100%d'' @ [newline], read_fails = False\<rparr>
      = ([''%s 100%d''], None)"
    by code_simp
  have split: "split_line literal_engine None ''%s 100%d'' = [''%s'', ''100%d'']"
    by code_simp
  note th = fields_written_verbatim [OF flags cols nonempty sep,
      of "\<lparr>data = ''%s 100%d'' @ [newline], read_fails = False\<rparr>" "[''%s'', ''100%d'']" 0]
  have "stdout (run literal_engine [''1'', ''2'']
       \<lparr>data = ''%s 100%d'' @ [newline], read_fails = False\<rparr>)
     = ''%s'' @ [tab] @ ''100%d'' @ [newline]"
    unfolding th [THEN conjunct1] lines
    by (simp add: split processed_def default_flags_def line_writes_def Fprint_def)
  moreover have "''%s'' \<in> set (line_writes {2, 1} [''%s'', ''100%d''])"
    using th [THEN conjunct2, THEN conjunct2, THEN conjunct1] by simp
  ultimately show ?thesis by blast
qed

text \<open>
  C9. The older file, which the claim also rests on, does not write the selected fields
  byte for byte: it gives each field to \<open>fmt.Fprintf\<close> as the format. With the columns 1 and
  2 and the input line \<open>%s 100%d\<close> it writes \<open>%!s(MISSING)\<close>, a tab, \<open>100%!d(MISSING)\<close> and a
  newline, and ends with status 0, where main.go writes \<open>%s\<close>, a tab, \<open>100%d\<close> and a newline.
  A field without a percent sign, such as \<open>abc\<close>, is written as it is by both.
\<close>

theorem format_directives_in_part_001:
  "run_parsed_part_001 literal_engine default_flags [''1'', ''2'']
       \<lparr>data = ''%s 100%d'' @ [newline], read_fails = False\<rparr>
     = \<lparr>stdout = ''%!s(MISSING)'' @ [tab] @ ''100%!d(MISSING)'' @ [newline],
        stderr = [], exit_status = 0, scans = 2\<rparr>
   \<and> concat (line_writes_part_001 {1, 2} [''%s'', ''100%d''])
     = ''%!s(MISSING)'' @ [tab] @ ''100%!d(MISSING)'' @ [newline]
   \<and> Fprintf ''%s'' = ''%!s(MISSING)''
   \<and> Fprintf ''100%d'' = ''100%!d(MISSING)''
   \<and> Fprintf ''abc'' = ''abc''
   \<and> Fprint ''%s'' = ''%s''
   \<and> run literal_engine [''1'', ''2'']
       \<lparr>data = ''%s 100%d'' @ [newline], read_fails = False\<rparr>
     = \<lparr>stdout = ''%s'' @ [tab] @ ''100%d'' @ [newline],
        stderr = [], exit_status = 0, scans = 2\<rparr>"
  by code_simp

subsection \<open>Splitting by a regular expression\<close>








subsection \<open>Splitting at white space\<close>

lemma Fields_from_Nil [simp]: "Fields_from cur [] = close_field cur"
  by (simp add: Fields_from.simps)

lemma cut_at_spaces_Nil [simp]: "cut_at_spaces cur [] = [cur]"
  by (simp add: cut_at_spaces.simps)

lemma white_Nil [simp]: "white []"
  by (simp add: white.simps)

lemma Fields_from_cut:
  "Fields_from cur s = filter (\<lambda>t. t \<noteq> []) (cut_at_spaces cur s)"
proof (induction cur s rule: Fields_from.induct)
  case (1 cur s)
  show ?case
  proof (cases "s = []")
    case True
    then show ?thesis
      by (simp add: close_field_def)
  next
    case False
    show ?thesis
    proof (cases "IsSpace (rune_at s)")
      case True
      with False "1.IH"(1) show ?thesis
        by (simp add: Fields_from.simps [of cur s] cut_at_spaces.simps [of cur s] close_field_def)
    next
      case space: False
      with False "1.IH"(2) show ?thesis
        by (simp add: Fields_from.simps [of cur s] cut_at_spaces.simps [of cur s])
    qed
  qed
qed

lemma first_byte_range:
  "first_byte b = Some (sz, lo, hi) \<Longrightarrow> 0xC2 \<le> b \<and> 0x80 \<le> lo \<and> hi \<le> 0xBF \<and> sz \<le> 4"
  by (auto simp: first_byte_def split: if_splits)

lemma RuneError_not_space: "\<not> IsSpace RuneError"
  by (simp add: IsSpace_def RuneError_def)

text \<open>A rune that is decoded without error is decoded from its own bytes alone.\<close>

lemma decode_append:
  assumes "s \<noteq> []" and "rune_at s \<noteq> RuneError"
  shows "DecodeRuneInString (s @ t) = DecodeRuneInString s"
proof (cases "byte (s ! 0) < 0x80")
  case True
  with assms(1) show ?thesis
    by (simp add: DecodeRuneInString_def nth_append)
next
  case False
  show ?thesis
  proof (cases "first_byte (byte (s ! 0))")
    case None
    with False assms(1) show ?thesis
      by (simp add: DecodeRuneInString_def nth_append)
  next
    case (Some r)
    obtain sz lo hi where r: "r = (sz, lo, hi)" by (cases r) auto
    from Some r have sz: "2 \<le> sz" by (auto dest: first_byte_size)
    have long: "sz \<le> length s"
    proof (rule ccontr)
      assume "\<not> sz \<le> length s"
      with False Some r assms(1) have "rune_at s = RuneError"
        by (simp add: rune_at_def DecodeRuneInString_def)
      with assms(2) show False by simp
    qed
    with False Some r assms(1) sz show ?thesis
      by (auto simp: DecodeRuneInString_def Let_def nth_append)
  qed
qed

lemma space_append:
  assumes "s \<noteq> []" and "IsSpace (rune_at s)"
  shows "rune_at (s @ t) = rune_at s" and "rune_width (s @ t) = rune_width s"
proof -
  from assms(2) have "rune_at s \<noteq> RuneError"
    using RuneError_not_space by auto
  with assms(1) have "DecodeRuneInString (s @ t) = DecodeRuneInString s"
    by (rule decode_append)
  then show "rune_at (s @ t) = rune_at s" and "rune_width (s @ t) = rune_width s"
    by (simp_all add: rune_at_def rune_width_def)
qed

lemma Fields_from_white:
  "white ws \<Longrightarrow> Fields_from cur ws = close_field cur"
proof (induction ws arbitrary: cur rule: white.induct)
  case (1 s)
  show ?case
  proof (cases "s = []")
    case True
    then show ?thesis by simp
  next
    case False
    with "1.prems" have sp: "IsSpace (rune_at s)" and rest: "white (drop (rune_width s) s)"
      by (simp_all add: white.simps [of s] split: if_splits)
    from "1.IH" [OF False sp rest] have "Fields_from [] (drop (rune_width s) s) = []"
      by (simp add: close_field_def)
    with False sp show ?thesis
      by (simp add: Fields_from.simps [of cur s])
  qed
qed

lemma Fields_from_leading:
  "white ws \<Longrightarrow> Fields_from [] (ws @ line) = Fields_from [] line"
proof (induction ws rule: white.induct)
  case (1 s)
  show ?case
  proof (cases "s = []")
    case True
    then show ?thesis by simp
  next
    case False
    with "1.prems" have sp: "IsSpace (rune_at s)" and rest: "white (drop (rune_width s) s)"
      by (simp_all add: white.simps [of s] split: if_splits)
    have drop: "drop (rune_width s) (s @ line) = drop (rune_width s) s @ line"
      using rune_width_le [of s] by simp
    have "Fields_from [] (s @ line) = Fields_from [] (drop (rune_width s) s @ line)"
      using False sp drop
      by (simp add: Fields_from.simps [of "[]" "s @ line"] space_append close_field_def)
    with "1.IH" [OF False sp rest] show ?thesis by simp
  qed
qed

text \<open>
  A white-space rune starts with a byte that cannot continue a rune, so what is decoded
  just before it does not depend on it.
\<close>

lemma space_lead:
  assumes "t \<noteq> []" and "IsSpace (rune_at t)"
  shows "byte (t ! 0) < 0x80 \<or> 0xC2 \<le> byte (t ! 0)"
proof (rule ccontr)
  assume "\<not> (byte (t ! 0) < 0x80 \<or> 0xC2 \<le> byte (t ! 0))"
  then have "\<not> byte (t ! 0) < 0x80" and "first_byte (byte (t ! 0)) = None"
    by (auto simp: first_byte_def)
  with assms(1) have "rune_at t = RuneError"
    by (simp add: rune_at_def DecodeRuneInString_def)
  with assms(2) show False
    using RuneError_not_space by simp
qed

lemma decode_before:
  assumes "s \<noteq> []" and "t \<noteq> []" and "byte (t ! 0) < 0x80 \<or> 0xC2 \<le> byte (t ! 0)"
  shows "DecodeRuneInString (s @ t) = DecodeRuneInString s"
proof (cases "byte (s ! 0) < 0x80")
  case True
  with assms(1) show ?thesis
    by (simp add: DecodeRuneInString_def nth_append)
next
  case False
  show ?thesis
  proof (cases "first_byte (byte (s ! 0))")
    case None
    with False assms(1) show ?thesis
      by (simp add: DecodeRuneInString_def nth_append)
  next
    case (Some r)
    obtain sz lo hi where r: "r = (sz, lo, hi)" by (cases r) auto
    from Some r have sz: "2 \<le> sz" "sz \<le> 4" and range: "0x80 \<le> lo" "hi \<le> 0xBF"
      by (auto dest: first_byte_size first_byte_range)
    show ?thesis
    proof (cases "sz \<le> length s")
      case True
      with False Some r assms(1) sz show ?thesis
        by (auto simp: DecodeRuneInString_def Let_def nth_append)
    next
      case short: False
      with False Some r assms(1) have alone: "DecodeRuneInString s = (RuneError, 1)"
        by (simp add: DecodeRuneInString_def)
      from assms(3) range have outside: "byte (t ! 0) < lo \<or> hi < byte (t ! 0)"
        and outside': "byte (t ! 0) < 0x80 \<or> 0xBF < byte (t ! 0)"
        by auto
      from assms(1) have "1 \<le> length s"
        by (cases s) simp_all
      with short sz have "length s = 1 \<or> (length s = 2 \<and> 3 \<le> sz) \<or> (length s = 3 \<and> sz = 4)"
        by arith
      then consider "length s = 1" | "length s = 2" "3 \<le> sz" | "length s = 3" "sz = 4"
        by blast
      then have "DecodeRuneInString (s @ t) = (RuneError, 1)"
      proof cases
        case 1
        with False Some r assms(1) outside show ?thesis
          by (auto simp: DecodeRuneInString_def Let_def nth_append)
      next
        case 2
        with False Some r assms(1) outside' show ?thesis
          by (auto simp: DecodeRuneInString_def Let_def nth_append)
      next
        case 3
        with False Some r assms(1) outside' show ?thesis
          by (auto simp: DecodeRuneInString_def Let_def nth_append)
      qed
      with alone show ?thesis by simp
    qed
  qed
qed

lemma Fields_from_trailing:
  assumes "white ws"
  shows "Fields_from cur (line @ ws) = Fields_from cur line"
proof (cases "ws = []")
  case True
  then show ?thesis by simp
next
  case False
  with assms have "IsSpace (rune_at ws)"
    by (simp add: white.simps [of ws] split: if_splits)
  with False have lead: "byte (ws ! 0) < 0x80 \<or> 0xC2 \<le> byte (ws ! 0)"
    by (rule space_lead)
  show ?thesis
  proof (induction cur line rule: Fields_from.induct)
    case (1 cur s)
    show ?case
    proof (cases "s = []")
      case True
      with assms show ?thesis
        by (simp add: Fields_from_white)
    next
      case ne: False
      with False lead have "DecodeRuneInString (s @ ws) = DecodeRuneInString s"
        by (simp add: decode_before)
      then have same: "rune_at (s @ ws) = rune_at s" "rune_width (s @ ws) = rune_width s"
        by (simp_all add: rune_at_def rune_width_def)
      have parts: "rune_width s - length s = 0"
        using rune_width_le [of s] by simp
      show ?thesis
      proof (cases "IsSpace (rune_at s)")
        case True
        with ne "1.IH"(1) same parts show ?thesis
          by (simp add: Fields_from.simps [of cur "s @ ws"] Fields_from.simps [of cur s])
      next
        case space: False
        with ne "1.IH"(2) same parts show ?thesis
          by (simp add: Fields_from.simps [of cur "s @ ws"] Fields_from.simps [of cur s])
      qed
    qed
  qed
qed

lemma Fields_from_before_space:
  assumes "s \<noteq> []" and "IsSpace (rune_at s)"
  shows "Fields_from cur (line @ s) = Fields_from cur line @ Fields_from [] s"
proof -
  from assms have lead: "byte (s ! 0) < 0x80 \<or> 0xC2 \<le> byte (s ! 0)"
    by (rule space_lead)
  show ?thesis
  proof (induction cur line rule: Fields_from.induct)
    case (1 cur x)
    show ?case
    proof (cases "x = []")
      case True
      with assms show ?thesis
        by (simp add: Fields_from.simps [of cur s] Fields_from.simps [of "[]" s] close_field_def)
    next
      case ne: False
      with assms(1) lead have "DecodeRuneInString (x @ s) = DecodeRuneInString x"
        by (simp add: decode_before)
      then have same: "rune_at (x @ s) = rune_at x" "rune_width (x @ s) = rune_width x"
        by (simp_all add: rune_at_def rune_width_def)
      have parts: "rune_width x - length x = 0"
        using rune_width_le [of x] by simp
      show ?thesis
      proof (cases "IsSpace (rune_at x)")
        case True
        with ne "1.IH"(1) same parts show ?thesis
          by (simp add: Fields_from.simps [of cur "x @ s"] Fields_from.simps [of cur x])
      next
        case space: False
        with ne "1.IH"(2) same parts show ?thesis
          by (simp add: Fields_from.simps [of cur "x @ s"] Fields_from.simps [of cur x])
      qed
    qed
  qed
qed

lemma Fields_from_single:
  assumes "\<And>c0. Fields_from c0 (cur @ s) = Fields_from (c0 @ cur) s"
  shows "\<forall>f \<in> set (Fields_from cur s). Fields_from [] f = [f]"
  using assms
proof (induction cur s rule: Fields_from.induct)
  case (1 cur s)
  show ?case
  proof (cases "s = []")
    case True
    with "1.prems" [of "[]"] show ?thesis
      by (simp add: close_field_def)
  next
    case ne: False
    show ?thesis
    proof (cases "IsSpace (rune_at s)")
      case True
      have rest: "\<forall>f \<in> set (Fields_from [] (drop (rune_width s) s)). Fields_from [] f = [f]"
        using "1.IH"(1) [OF ne True] by simp
      have here: "Fields_from [] cur = [cur]" if "cur \<noteq> []"
      proof -
        have "Fields_from [] cur @ Fields_from [] s = Fields_from [] (cur @ s)"
          using ne True by (simp add: Fields_from_before_space)
        also have "\<dots> = Fields_from cur s"
          using "1.prems" [of "[]"] by simp
        also have "\<dots> = [cur] @ Fields_from [] (drop (rune_width s) s)"
          using ne True that by (simp add: Fields_from.simps [of cur s] close_field_def)
        also have "Fields_from [] (drop (rune_width s) s) = Fields_from [] s"
          using ne True by (simp add: Fields_from.simps [of "[]" s] close_field_def)
        finally show ?thesis by simp
      qed
      from ne True have "Fields_from cur s = close_field cur @ Fields_from [] (drop (rune_width s) s)"
        by (simp add: Fields_from.simps [of cur s])
      with rest here show ?thesis
        by (auto simp: close_field_def split: if_splits)
    next
      case space: False
      have step: "Fields_from c s = Fields_from (c @ take (rune_width s) s) (drop (rune_width s) s)" for c
        using ne space by (simp add: Fields_from.simps [of c s])
      have "Fields_from c0 ((cur @ take (rune_width s) s) @ drop (rune_width s) s)
          = Fields_from (c0 @ cur @ take (rune_width s) s) (drop (rune_width s) s)" for c0
        using "1.prems" [of c0] step [of "c0 @ cur"] by simp
      then have "\<forall>f \<in> set (Fields_from (cur @ take (rune_width s) s) (drop (rune_width s) s)).
          Fields_from [] f = [f]"
        using "1.IH"(2) [OF ne space] by simp
      with step [of cur] show ?thesis by simp
    qed
  qed
qed

lemma Fields_single: "\<forall>f \<in> set (Fields line). Fields f = [f]"
  unfolding Fields_def by (rule Fields_from_single) simp

lemma Fields_nonempty: "\<forall>f \<in> set (Fields line). f \<noteq> []"
  by (simp add: Fields_def Fields_from_cut)

lemma Fields_gap:
  assumes "white gap" and "gap \<noteq> []"
  shows "Fields (a @ gap @ b) = Fields a @ Fields b"
proof -
  from assms have sp: "IsSpace (rune_at gap)"
    by (simp add: white.simps [of gap] split: if_splits)
  with assms(2) have "IsSpace (rune_at (gap @ b))"
    by (simp add: space_append)
  moreover from assms(2) have "gap @ b \<noteq> []"
    by simp
  ultimately have "Fields_from [] (a @ gap @ b) = Fields_from [] a @ Fields_from [] (gap @ b)"
    using Fields_from_before_space [of "gap @ b" "[]" a] by simp
  with assms(1) show ?thesis
    by (simp add: Fields_def Fields_from_leading)
qed

text \<open>
  C6. Without \<open>-s\<close> and \<open>-t\<close> every processed line is split by \<open>strings.Fields\<close>. Its fields
  are what is left of the line when it is cut at every white-space rune and the empty
  pieces are dropped: no field is empty, each field is one field of its own (there is no
  white space in it), white space at the start and at the end of the line changes nothing,
  and a run of white space between two parts of a line only separates their fields. The
  line of two blanks, \<open>a\<close>, three blanks, \<open>b\<close>, two blanks, \<open>c\<close> and a blank, with the columns
  1, 2 and 3, gives the output line \<open>a\<close>, tab, \<open>b\<close>, tab, \<open>c\<close>, ended by its newline.
\<close>

theorem default_split_on_whitespace:
  "(Parse default_flags args = Inr (fl, positional) \<and> separator fl = [] \<and> \<not> useTabSeparator fl
      \<and> parse_columns positional {} = Inr columns \<and> columns \<noteq> {} \<longrightarrow>
      stdout (run lib args stdin) =
        concat (map (\<lambda>line. print_line columns (Fields line))
                    (processed (ignoreHeaderRow fl) (fst (Scanner stdin)))))
   \<and> Fields line = whitespace_split line
   \<and> (\<forall>f \<in> set (Fields line). f \<noteq> [] \<and> Fields f = [f])
   \<and> (white ws \<longrightarrow> Fields (ws @ line) = Fields line \<and> Fields (line @ ws) = Fields line)
   \<and> (white gap \<and> gap \<noteq> [] \<longrightarrow> Fields (a @ gap @ b) = Fields a @ Fields b)
   \<and> run lib [''1'', ''2'', ''3'']
        \<lparr>data = ''  a   b  c '' @ [newline], read_fails = False\<rparr> =
      \<lparr>stdout = ''a'' @ [tab] @ ''b'' @ [tab] @ ''c'' @ [newline], stderr = [],
       exit_status = 0, scans = 2\<rparr>"
proof (intro conjI impI)
  assume given: "Parse default_flags args = Inr (fl, positional) \<and> separator fl = []
      \<and> \<not> useTabSeparator fl \<and> parse_columns positional {} = Inr columns \<and> columns \<noteq> {}"
  then have sep: "resolve_separator lib fl = Inr None"
    by (simp add: resolve_separator_def)
  with given have "run lib args stdin = scan_and_split lib fl columns None stdin"
    by (simp add: run_reaches_input)
  then show "stdout (run lib args stdin) =
        concat (map (\<lambda>line. print_line columns (Fields line))
                    (processed (ignoreHeaderRow fl) (fst (Scanner stdin))))"
    by (simp add: stdout_scan_and_split split_line_def)
next
  show "Fields line = whitespace_split line"
    by (simp add: Fields_def whitespace_split_def Fields_from_cut)
next
  show "\<forall>f \<in> set (Fields line). f \<noteq> [] \<and> Fields f = [f]"
    using Fields_single [of line] Fields_nonempty [of line] by blast
next
  assume "white ws"
  then show "Fields (ws @ line) = Fields line" and "Fields (line @ ws) = Fields line"
    by (simp_all add: Fields_def Fields_from_leading Fields_from_trailing)
next
  assume "white gap \<and> gap \<noteq> []"
  then show "Fields (a @ gap @ b) = Fields a @ Fields b"
    by (simp add: Fields_gap)
next
  have flags: "Parse default_flags [''1'', ''2'', ''3''] = Inr (default_flags, [''1'', ''2'', ''3''])"
    by simp
  have cols: "parse_columns [''1'', ''2'', ''3''] {} = Inr {3, 2, 1}"
    by code_simp
  have nonempty: "{3, 2, 1::int} \<noteq> {}"
    by simp
  have sep: "resolve_separator lib default_flags = Inr None"
    by (simp add: resolve_separator_def default_flags_def)
  have lines: "Scanner \<lparr>data = ''  a   b  c '' @ [newline], read_fails = False\<rparr>
      = ([''  a   b  c ''], None)"
    by code_simp
  have fields: "Fields ''  a   b  c '' = [''a'', ''b'', ''c'']"
    by code_simp
  show "run lib [''1'', ''2'', ''3'']
        \<lparr>data = ''  a   b  c '' @ [newline], read_fails = False\<rparr> =
      \<lparr>stdout = ''a'' @ [tab] @ ''b'' @ [tab] @ ''c'' @ [newline], stderr = [],
       exit_status = 0, scans = 2\<rparr>"
    unfolding run_reaches_input [OF flags cols nonempty sep] scan_and_split_def lines
    by (simp add: split_line_def fields print_line_def line_writes_def Fprint_def
          default_flags_def)
qed

theorem default_split_on_whitespace_witness:
  "stdout (run literal_engine [''2'']
       \<lparr>data = ''x  y'' @ [newline] @ [tab] @ ''u v'' @ [newline], read_fails = False\<rparr>)
     = ''y'' @ [newline] @ ''v'' @ [newline]
   \<and> Fields ''b'' = [''b'']
   \<and> Fields (''  '' @ ''a  b'') = Fields ''a  b''
   \<and> Fields (''a  b'' @ ''  '') = Fields ''a  b''
   \<and> Fields (''a'' @ ('' '' @ [tab] @ '' '') @ ''b'') = Fields ''a'' @ Fields ''b''"
proof -
  have given: "Parse default_flags [''2''] = Inr (default_flags, [''2'']) \<and> separator default_flags = []
      \<and> \<not> useTabSeparator default_flags \<and> parse_columns [''2''] {} = Inr {2} \<and> {2::int} \<noteq> {}"
    by code_simp
  have lines: "Scanner \<lparr>data = ''x  y'' @ [newline] @ [tab] @ ''u v'' @ [newline], read_fails = False\<rparr>
      = ([''x  y'', tab # ''u v''], None)"
    by code_simp
  have line1: "print_line {2} (Fields ''x  y'') = ''y'' @ [newline]"
    by code_simp
  have line2: "print_line {2} (Fields (tab # ''u v'')) = ''v'' @ [newline]"
    by code_simp
  have blanks: "white ''  ''"
    by code_simp
  have gap: "white ('' '' @ [tab] @ '' '') \<and> '' '' @ [tab] @ '' '' \<noteq> []"
    by code_simp
  have member: "''b'' \<in> set (Fields ''a  b'')"
    by code_simp
  note th = default_split_on_whitespace
      [of "[''2'']" default_flags "[''2'']" "{2}" literal_engine
          "\<lparr>data = ''x  y'' @ [newline] @ [tab] @ ''u v'' @ [newline], read_fails = False\<rparr>"
          "''a  b''" "''  ''" "'' '' @ [tab] @ '' ''" "''a''" "''b''"]
  have "stdout (run literal_engine [''2'']
       \<lparr>data = ''x  y'' @ [newline] @ [tab] @ ''u v'' @ [newline], read_fails = False\<rparr>)
     = ''y'' @ [newline] @ ''v'' @ [newline]"
    unfolding th [THEN conjunct1, rule_format, OF given] lines
    by (simp add: processed_def default_flags_def line1 line2)
  moreover have "Fields ''b'' = [''b'']"
    using th member by blast
  moreover have "Fields (''  '' @ ''a  b'') = Fields ''a  b''"
      and "Fields (''a  b'' @ ''  '') = Fields ''a  b''"
    using th blanks by blast+
  moreover have "Fields (''a'' @ ('' '' @ [tab] @ '' '') @ ''b'') = Fields ''a'' @ Fields ''b''"
    using th gap by blast
  ultimately show ?thesis by blast
qed

end
